theory Spec2Isabelle
  imports Main "HOL-Library.AList" "HOL-Library.Sublist"
begin

section \<open>Python values\<close>

text \<open>
  The agents exchange dictionaries of dynamically typed values. A value is one of the
  JSON-like shapes the repository builds; a dictionary is an association list with
  string keys, read through \<open>map_of\<close> (the first binding of a key wins). A string is
  the list of the UTF-8 bytes of the Python text. Floating-point numbers are left out.
\<close>

datatype pyval =
    PNone
  | PBool bool
  | PInt int
  | PStr string
  | PList "pyval list"
  | PDict "(string \<times> pyval) list"

type_synonym pydict = "(string \<times> pyval) list"

text \<open>Python's truth value of an object, as \<open>if x\<close> and \<open>not x\<close> test it.\<close>

fun truthy :: "pyval \<Rightarrow> bool" where
  "truthy PNone = False"
| "truthy (PBool b) = b"
| "truthy (PInt i) = (i \<noteq> 0)"
| "truthy (PStr s) = (s \<noteq> [])"
| "truthy (PList xs) = (xs \<noteq> [])"
| "truthy (PDict kvs) = (kvs \<noteq> [])"

text \<open>\<open>d.get(k, default)\<close> on a dictionary.\<close>

definition dict_get :: "pydict \<Rightarrow> string \<Rightarrow> pyval \<Rightarrow> pyval" where
  "dict_get d k dflt = (case map_of d k of None \<Rightarrow> dflt | Some v \<Rightarrow> v)"

text \<open>\<open>v == "literal"\<close>: only a string with the same characters is equal to a string.\<close>

definition py_eq_str :: "pyval \<Rightarrow> string \<Rightarrow> bool" where
  "py_eq_str v s = (v = PStr s)"

text \<open>\<open>v == n\<close> for an integer literal: a bool compares as 0 or 1.\<close>

definition py_eq_int :: "pyval \<Rightarrow> int \<Rightarrow> bool" where
  "py_eq_int v n =
     (case v of PInt i \<Rightarrow> i = n | PBool b \<Rightarrow> (if b then 1 else 0) = n | _ \<Rightarrow> False)"

section \<open>The standard response of an agent\<close>

text \<open>
  \<open>BaseAgent.create_response\<close> builds the dictionary every agent returns: the keys
  \<open>success\<close>, \<open>message\<close>, \<open>data\<close> and \<open>agent_id\<close> (and a wall-clock timestamp, which
  is not modelled). \<open>data or {}\<close> turns a missing payload into the empty dictionary,
  here \<open>[]\<close>.
\<close>

record response =
  success :: bool
  message :: string
  data :: pydict
  agent_id :: string

definition create_response :: "string \<Rightarrow> bool \<Rightarrow> string \<Rightarrow> pydict \<Rightarrow> response" where
  "create_response aid s m d = \<lparr>success = s, message = m, data = d, agent_id = aid\<rparr>"

section \<open>The orchestrator\<close>

text \<open>
  An agent is a black box: \<open>agent.execute(context)\<close> reads and may update the shared
  context and its own and the outside world's state \<open>'w\<close>, and either returns a
  response or raises an exception (\<open>Inl\<close> carries \<open>str(e)\<close>). No agent of the
  repository holds a reference to the orchestrator, so an agent cannot change the
  orchestrator's fields.
\<close>

type_synonym 'w agent = "pydict \<Rightarrow> 'w \<Rightarrow> (string + response) \<times> pydict \<times> 'w"

text \<open>
  The fields of \<open>OrchestratorAgent\<close>. \<open>current_step\<close> and \<open>workflow_steps\<close> are never
  written after construction and are left out.
\<close>

record 'w orchestrator =
  agents :: "string \<rightharpoonup> 'w agent"
  workflow_state :: string
  paused :: bool
  pause_reason :: "string option"

text \<open>
  The state one call works on: the orchestrator object, the context dictionary passed
  by reference, the world the agents act on, and a log of the agent ids whose
  \<open>execute\<close> was called, in call order. The log is the only addition to the source: it
  makes "which steps ran" a value.
\<close>

record 'w sys =
  orch :: "'w orchestrator"
  ctx :: pydict
  world :: 'w
  invoked :: "string list"

definition orch_id :: string where
  "orch_id = ''orch_001''"

definition new_orchestrator :: "'w orchestrator" where
  "new_orchestrator =
     \<lparr>agents = Map.empty, workflow_state = ''initializing'', paused = False,
      pause_reason = None\<rparr>"

text \<open>\<open>register_agent\<close>: \<open>self.agents[agent.agent_id] = agent\<close>.\<close>

definition register_agent :: "'w orchestrator \<Rightarrow> string \<Rightarrow> 'w agent \<Rightarrow> 'w orchestrator" where
  "register_agent self aid ag = self\<lparr>agents := (agents self)(aid \<mapsto> ag)\<rparr>"

text \<open>One call \<open>agent.execute(context)\<close>, logged.\<close>

definition call_agent ::
  "'w sys \<Rightarrow> string \<Rightarrow> 'w agent \<Rightarrow> (string + response) \<times> 'w sys" where
  "call_agent s aid ag =
     (case ag (ctx s) (world s) of
        (r, c, w) \<Rightarrow> (r, s\<lparr>ctx := c, world := w, invoked := invoked s @ [aid]\<rparr>))"

definition set_workflow_state :: "string \<Rightarrow> 'w sys \<Rightarrow> 'w sys" where
  "set_workflow_state p s = s\<lparr>orch := (orch s)\<lparr>workflow_state := p\<rparr>\<rparr>"

text \<open>The emoji that open the orchestrator's messages, as their UTF-8 bytes.\<close>

definition gear_sign :: string where
  "gear_sign = [CHR 0xE2, CHR 0x9A, CHR 0x99, CHR 0xEF, CHR 0xB8, CHR 0x8F]"

definition compass_sign :: string where
  "compass_sign = [CHR 0xF0, CHR 0x9F, CHR 0xA7, CHR 0xAD]"

definition brain_sign :: string where
  "brain_sign = [CHR 0xF0, CHR 0x9F, CHR 0xA7, CHR 0xA0]"

definition rocket_sign :: string where
  "rocket_sign = [CHR 0xF0, CHR 0x9F, CHR 0x9A, CHR 0x80]"

definition pause_sign :: string where
  "pause_sign = [CHR 0xE2, CHR 0x8F, CHR 0xB8, CHR 0xEF, CHR 0xB8, CHR 0x8F]"

subsection \<open>Environment setup\<close>

text \<open>\<open>str(KeyError(k))\<close> for a plain key: the key between apostrophes.\<close>

definition key_error :: "string \<Rightarrow> string" where
  "key_error k = [CHR 0x27] @ k @ [CHR 0x27]"

text \<open>
  The guard tests the key \<open>env_agent\<close>, the lookup reads the key \<open>env_001\<close>; a lookup
  of a missing key raises \<open>KeyError\<close>, whose \<open>str\<close> is the quoted key.
\<close>

definition execute_environment_setup :: "'w sys \<Rightarrow> (string + response) \<times> 'w sys" where
  "execute_environment_setup s =
     (if agents (orch s) ''env_agent'' = None
      then (Inr (create_response orch_id False ''Environment agent not registered'' []), s)
      else (case agents (orch s) ''env_001'' of
              None \<Rightarrow> (Inl (key_error ''env_001''), s)
            | Some env_agent \<Rightarrow>
                (case call_agent s ''env_001'' env_agent of
                   (Inl e, s') \<Rightarrow> (Inl e, s')
                 | (Inr result, s') \<Rightarrow>
                     if success result
                     then (Inr (create_response orch_id True
                                  (gear_sign @ '' Environment setup completed. Moving to definition phase.'')
                                  [(''next_phase'', PStr ''definition'')]),
                           set_workflow_state ''definition'' s')
                     else (Inr result, s'))))"

subsection \<open>Definition phase\<close>

definition execute_definition_phase :: "'w sys \<Rightarrow> (string + response) \<times> 'w sys" where
  "execute_definition_phase s =
     (case agents (orch s) ''coord_001'' of
        None \<Rightarrow> (Inr (create_response orch_id False ''Coordinator agent not registered'' []), s)
      | Some coordinator \<Rightarrow>
          (case call_agent s ''coord_001'' coordinator of
             (Inl e, s') \<Rightarrow> (Inl e, s')
           | (Inr result, s') \<Rightarrow>
               if success result \<and> truthy (dict_get (data result) ''project_defined'' (PBool False))
               then (Inr (create_response orch_id True
                            (compass_sign @ '' Project definition completed. Starting development phase.'')
                            [(''next_phase'', PStr ''development'')]),
                     set_workflow_state ''development'' s')
               else (Inr result, s')))"

subsection \<open>Development phase\<close>

definition dev_steps :: "(string \<times> string \<times> string) list" where
  "dev_steps =
     [(''arch_001'', ''Architect Agent'', ''Designing system architecture''),
      (''core_001'', ''Core Logic Agent'', ''Writing Python code''),
      (''backup_001'', ''Backup Agent'', ''Creating backups''),
      (''standards_001'', ''Standards Agent'', ''Enforcing coding standards''),
      (''test_001'', ''Testing Agent'', ''Running tests and validation''),
      (''doc_001'', ''Documentation Agent'', ''Updating documentation''),
      (''ethics_001'', ''Ethics Agent'', ''Security and ethics review''),
      (''valid_001'', ''Validator Agent'', ''Final validation'')]"

definition step_failed_response :: "string \<Rightarrow> response \<Rightarrow> response" where
  "step_failed_response agent_name result =
     create_response orch_id False
       (''Development step failed: '' @ agent_name @ '' - '' @ message result) []"

text \<open>
  The \<open>for\<close> loop over the steps. It ends in one of three ways: an agent raised
  (\<open>Inl\<close>), the loop returned the failure response of a step (\<open>Inr (Some r)\<close>), or the
  loop ran to its end (\<open>Inr None\<close>).
\<close>

fun dev_loop ::
  "(string \<times> string \<times> string) list \<Rightarrow> 'w sys \<Rightarrow> (string + response option) \<times> 'w sys" where
  "dev_loop [] s = (Inr None, s)"
| "dev_loop ((aid, agent_name, description) # rest) s =
     (case agents (orch s) aid of
        None \<Rightarrow> dev_loop rest s
      | Some ag \<Rightarrow>
          (case call_agent s aid ag of
             (Inl e, s') \<Rightarrow> (Inl e, s')
           | (Inr result, s') \<Rightarrow>
               if \<not> success result
               then (Inr (Some (step_failed_response agent_name result)), s')
               else dev_loop rest s'))"

definition execute_development_phase :: "'w sys \<Rightarrow> (string + response) \<times> 'w sys" where
  "execute_development_phase s =
     (case dev_loop dev_steps s of
        (Inl e, s') \<Rightarrow> (Inl e, s')
      | (Inr (Some r), s') \<Rightarrow> (Inr r, s')
      | (Inr None, s') \<Rightarrow>
          (Inr (create_response orch_id True
                  (brain_sign @ '' Development phase completed. Moving to delivery phase.'')
                  [(''next_phase'', PStr ''delivery'')]),
           set_workflow_state ''delivery'' s'))"

subsection \<open>Delivery phase\<close>

definition execute_delivery_phase :: "'w sys \<Rightarrow> (string + response) \<times> 'w sys" where
  "execute_delivery_phase s =
     (case agents (orch s) ''repo_001'' of
        None \<Rightarrow> (Inr (create_response orch_id False ''Repository agent not registered'' []), s)
      | Some repo_agent \<Rightarrow>
          (case call_agent s ''repo_001'' repo_agent of
             (Inl e, s') \<Rightarrow> (Inl e, s')
           | (Inr result, s') \<Rightarrow>
               if success result
               then (Inr (create_response orch_id True
                            (rocket_sign @ '' Project delivery completed successfully!'')
                            [(''project_completed'', PBool True)]),
                     set_workflow_state ''completed'' s')
               else (Inr result, s')))"

subsection \<open>Pause and resume\<close>

definition pause_workflow :: "string \<Rightarrow> 'w orchestrator \<Rightarrow> 'w orchestrator" where
  "pause_workflow reason self = self\<lparr>paused := True, pause_reason := Some reason\<rparr>"

definition resume_workflow :: "'w orchestrator \<Rightarrow> 'w orchestrator" where
  "resume_workflow self = self\<lparr>paused := False, pause_reason := None\<rparr>"

text \<open>How an f-string prints \<open>self.pause_reason\<close>, and the value stored under \<open>reason\<close>.\<close>

definition reason_text :: "string option \<Rightarrow> string" where
  "reason_text r = (case r of None \<Rightarrow> ''None'' | Some t \<Rightarrow> t)"

definition reason_value :: "string option \<Rightarrow> pyval" where
  "reason_value r = (case r of None \<Rightarrow> PNone | Some t \<Rightarrow> PStr t)"

definition paused_response :: "string option \<Rightarrow> response" where
  "paused_response r =
     create_response orch_id False
       (pause_sign @ '' Workflow paused: '' @ reason_text r @ ''. Type 'Try again' to resume.'')
       [(''paused'', PBool True), (''reason'', reason_value r)]"

definition resumed_response :: response where
  "resumed_response =
     create_response orch_id True ''Workflow resumed. Continuing from last step.''
       [(''resumed'', PBool True)]"

definition handle_pause_resume :: "'w sys \<Rightarrow> (string + response) \<times> 'w sys" where
  "handle_pause_resume s =
     (if py_eq_str (dict_get (ctx s) ''user_input'' PNone) ''Try again''
      then (Inr resumed_response, s\<lparr>orch := resume_workflow (orch s)\<rparr>)
      else (Inr (paused_response (pause_reason (orch s))), s))"

definition handle_model_unavailable :: "string \<Rightarrow> 'w sys \<Rightarrow> response \<times> 'w sys" where
  "handle_model_unavailable model s =
     (create_response orch_id False
        (pause_sign @ '' Model '' @ model @ '' is unavailable.'' @ [CHR 0x0A]
           @ ''No fallback will be used to maintain cost control.'' @ [CHR 0x0A]
           @ ''Type 'Try again' once you want to resume.'')
        [(''model_unavailable'', PBool True), (''model'', PStr model)],
      s\<lparr>orch := pause_workflow (''Model '' @ model @ '' unavailable'') (orch s)\<rparr>)"

subsection \<open>One call of the orchestrator\<close>

definition dispatch :: "'w sys \<Rightarrow> (string + response) \<times> 'w sys" where
  "dispatch s =
     (if paused (orch s) then handle_pause_resume s
      else if workflow_state (orch s) = ''initializing'' then execute_environment_setup s
      else if workflow_state (orch s) = ''definition'' then execute_definition_phase s
      else if workflow_state (orch s) = ''development'' then execute_development_phase s
      else if workflow_state (orch s) = ''delivery'' then execute_delivery_phase s
      else (Inr (create_response orch_id False
                   (''Unknown workflow state: '' @ workflow_state (orch s)) []), s))"

text \<open>\<open>execute\<close>: the body above inside \<open>try\<close>; any exception becomes a failure response.\<close>

definition execute :: "'w sys \<Rightarrow> response \<times> 'w sys" where
  "execute s =
     (case dispatch s of
        (Inr r, s') \<Rightarrow> (r, s')
      | (Inl e, s') \<Rightarrow>
          (create_response orch_id False (''Workflow execution failed: '' @ e) [], s'))"

subsection \<open>Vocabulary for statements about the development phase\<close>

text \<open>
  \<open>steps_succeed steps s s'\<close>: running \<open>steps\<close> in order from \<open>s\<close>, every step that is
  registered is called and returns a response with \<open>success\<close> set, a step that is not
  registered is passed over, and the run ends in \<open>s'\<close>.
\<close>

inductive steps_succeed ::
  "(string \<times> string \<times> string) list \<Rightarrow> 'w sys \<Rightarrow> 'w sys \<Rightarrow> bool" where
  no_steps: "steps_succeed [] s s"
| step_skipped:
    "agents (orch s) aid = None \<Longrightarrow> steps_succeed rest s s' \<Longrightarrow>
     steps_succeed ((aid, agent_name, description) # rest) s s'"
| step_succeeded:
    "agents (orch s) aid = Some ag \<Longrightarrow> call_agent s aid ag = (Inr result, s1) \<Longrightarrow>
     success result \<Longrightarrow> steps_succeed rest s1 s' \<Longrightarrow>
     steps_succeed ((aid, agent_name, description) # rest) s s'"

text \<open>The ids of the steps of a list that are registered, in list order.\<close>

definition registered_ids ::
  "'w orchestrator \<Rightarrow> (string \<times> string \<times> string) list \<Rightarrow> string list" where
  "registered_ids self steps = [a \<leftarrow> map fst steps. agents self a \<noteq> None]"

text \<open>The position of a workflow state in the fixed order of phases.\<close>

definition phase_rank :: "string \<Rightarrow> nat option" where
  "phase_rank p =
     (if p = ''initializing'' then Some 0
      else if p = ''definition'' then Some 1
      else if p = ''development'' then Some 2
      else if p = ''delivery'' then Some 3
      else if p = ''completed'' then Some 4
      else None)"

text \<open>
  What a caller can do with an orchestrator between construction and disposal, and the
  state after a sequence of such events.
\<close>

datatype 'w event =
    Execute pydict
  | Register string "'w agent"
  | Pause string
  | Resume
  | ModelUnavailable string

fun apply_event :: "'w event \<Rightarrow> 'w sys \<Rightarrow> 'w sys" where
  "apply_event (Execute c) s = snd (execute (s\<lparr>ctx := c\<rparr>))"
| "apply_event (Register aid ag) s = s\<lparr>orch := register_agent (orch s) aid ag\<rparr>"
| "apply_event (Pause reason) s = s\<lparr>orch := pause_workflow reason (orch s)\<rparr>"
| "apply_event Resume s = s\<lparr>orch := resume_workflow (orch s)\<rparr>"
| "apply_event (ModelUnavailable model) s = snd (handle_model_unavailable model s)"

definition initial_sys :: "'w \<Rightarrow> 'w sys" where
  "initial_sys w = \<lparr>orch = new_orchestrator, ctx = [], world = w, invoked = []\<rparr>"

definition run_events :: "'w event list \<Rightarrow> 'w sys \<Rightarrow> 'w sys" where
  "run_events evs s = fold apply_event evs s"

section \<open>The validator\<close>

definition valid_id :: string where
  "valid_id = ''valid_001''"

definition validation_criteria :: "string list" where
  "validation_criteria =
     [''code_quality'', ''documentation'', ''testing'', ''security'', ''ethics'',
      ''functionality'']"

text \<open>
  The dictionary a \<open>_validate_*\<close> method returns, and the dictionary
  \<open>_perform_final_validation\<close> builds. The latter's keys \<open>issues\<close> and
  \<open>recommendations\<close> are named \<open>all_issues\<close> and \<open>all_recommendations\<close> here, since
  a field name can be used once.
\<close>

record criterion_result =
  passed :: bool
  issues :: "string list"
  recommendations :: "string list"

record validation =
  approved :: bool
  criteria :: "(string \<times> criterion_result) list"
  all_issues :: "string list"
  all_recommendations :: "string list"

subsection \<open>Attribute errors\<close>

text \<open>
  The validator calls \<open>.get\<close> and \<open>.items\<close> on values of the context. On a value that
  is not a dictionary the call raises \<open>AttributeError\<close>; \<open>Inl\<close> carries its \<open>str\<close>.
\<close>

definition type_name :: "pyval \<Rightarrow> string" where
  "type_name v =
     (case v of PNone \<Rightarrow> ''NoneType'' | PBool b \<Rightarrow> ''bool'' | PInt i \<Rightarrow> ''int''
      | PStr s \<Rightarrow> ''str'' | PList xs \<Rightarrow> ''list'' | PDict kvs \<Rightarrow> ''dict'')"

definition attribute_error :: "pyval \<Rightarrow> string \<Rightarrow> string" where
  "attribute_error v attr =
     [CHR 0x27] @ type_name v @ [CHR 0x27] @ '' object has no attribute ''
       @ [CHR 0x27] @ attr @ [CHR 0x27]"

definition as_dict :: "string \<Rightarrow> pyval \<Rightarrow> string + pydict" where
  "as_dict attr v = (case v of PDict d \<Rightarrow> Inr d | _ \<Rightarrow> Inl (attribute_error v attr))"

subsection \<open>Critical issues\<close>

text \<open>
  The test lower-cases the issue with Python's built-in \<open>str.lower\<close> and looks for each
  keyword with \<open>in\<close>. \<open>str.lower\<close> follows the Unicode case mappings and is not code of
  the repository: it is the parameter \<open>lower_of\<close>. \<open>keyword in text\<close> on strings is the
  contiguous-sublist test; the keywords are ASCII, so the test gives the same answer on
  the UTF-8 bytes of a text as on its code points.
\<close>

definition critical_keywords :: "string list" where
  "critical_keywords =
     [''syntax error'', ''compilation failed'', ''cannot run'', ''broken'', ''corrupted'',
      ''security vulnerability'']"

definition is_critical :: "(string \<Rightarrow> string) \<Rightarrow> string \<Rightarrow> bool" where
  "is_critical lower_of issue =
     list_ex (\<lambda>keyword. sublist keyword (lower_of issue)) critical_keywords"

subsection \<open>The criteria\<close>

text \<open>The result every criterion builds from its list of issues.\<close>

definition issues_result :: "string list \<Rightarrow> string \<Rightarrow> criterion_result" where
  "issues_result found advice =
     \<lparr>passed = (length found = 0), issues = found,
      recommendations = (if found \<noteq> [] then [advice] else [])\<rparr>"

definition absent_result :: "string \<Rightarrow> criterion_result" where
  "absent_result advice = \<lparr>passed = True, issues = [], recommendations = [advice]\<rparr>"

text \<open>
  The loop of \<open>_validate_code_quality\<close> over \<open>standards_results.items()\<close>. The f-string
  prints the recorded message with Python's built-in \<open>str\<close>, which is not code of the
  repository: it is the parameter \<open>str_of\<close>.
\<close>

fun standards_issues :: "(pyval \<Rightarrow> string) \<Rightarrow> pydict \<Rightarrow> string + string list" where
  "standards_issues str_of [] = Inr []"
| "standards_issues str_of ((tool, result) # rest) =
     (case as_dict ''get'' result of
        Inl e \<Rightarrow> Inl e
      | Inr r \<Rightarrow>
          (case standards_issues str_of rest of
             Inl e \<Rightarrow> Inl e
           | Inr later \<Rightarrow>
               Inr ((if \<not> py_eq_str (dict_get r ''status'' PNone) ''clean''
                     then [tool @ '': '' @ str_of (dict_get r ''message'' (PStr ''Issues found''))]
                     else []) @ later)))"

definition validate_code_quality :: "(pyval \<Rightarrow> string) \<Rightarrow> pyval \<Rightarrow> string + criterion_result" where
  "validate_code_quality str_of validation_results =
     (case as_dict ''get'' validation_results of
        Inl e \<Rightarrow> Inl e
      | Inr vr \<Rightarrow>
          (let standards_results = dict_get vr ''standards_results'' (PDict []) in
           if \<not> truthy standards_results
           then Inr (absent_result ''Consider running code quality tools'')
           else (case as_dict ''items'' standards_results of
                   Inl e \<Rightarrow> Inl e
                 | Inr entries \<Rightarrow>
                     (case standards_issues str_of entries of
                        Inl e \<Rightarrow> Inl e
                      | Inr found \<Rightarrow>
                          Inr (issues_result found ''Run code quality tools and fix issues'')))))"

definition validate_documentation :: "pyval \<Rightarrow> string + criterion_result" where
  "validate_documentation validation_results =
     (case as_dict ''get'' validation_results of
        Inl e \<Rightarrow> Inl e
      | Inr vr \<Rightarrow>
          (let doc_results = dict_get vr ''documentation_results'' (PDict []) in
           if \<not> truthy doc_results
           then Inr (absent_result ''Consider adding more documentation'')
           else (case as_dict ''get'' doc_results of
                   Inl e \<Rightarrow> Inl e
                 | Inr d \<Rightarrow>
                     Inr (issues_result
                            ((if \<not> truthy (dict_get d ''readme_created'' (PBool False))
                              then [''README.md not created''] else [])
                             @ (if \<not> truthy (dict_get d ''api_docs_created'' (PBool False))
                                then [''API documentation not created''] else []))
                            ''Create comprehensive documentation''))))"

definition validate_testing :: "pyval \<Rightarrow> string + criterion_result" where
  "validate_testing validation_results =
     (case as_dict ''get'' validation_results of
        Inl e \<Rightarrow> Inl e
      | Inr vr \<Rightarrow>
          (let test_results = dict_get vr ''test_results'' (PDict []) in
           if \<not> truthy test_results
           then Inr (absent_result ''Consider adding more comprehensive tests'')
           else (case as_dict ''get'' test_results of
                   Inl e \<Rightarrow> Inl e
                 | Inr t \<Rightarrow>
                     (case as_dict ''get'' (dict_get t ''unit_tests'' (PDict [])) of
                        Inl e \<Rightarrow> Inl e
                      | Inr u \<Rightarrow>
                          Inr (issues_result
                                 ((if \<not> truthy (dict_get t ''syntax_valid'' (PBool False))
                                   then [''Syntax validation failed''] else [])
                                  @ (if \<not> py_eq_int (dict_get u ''return_code'' PNone) 0
                                     then [''Unit tests failed''] else []))
                                 ''Fix failing tests'')))))"

text \<open>
  The loops of \<open>_validate_security\<close> and \<open>_validate_ethics\<close> have one shape: an issue
  \<open>label + file_path\<close> for every entry whose \<open>overall_safe\<close> is not truthy.
\<close>

fun unsafe_issues :: "string \<Rightarrow> pydict \<Rightarrow> string + string list" where
  "unsafe_issues label [] = Inr []"
| "unsafe_issues label ((file_path, result) # rest) =
     (case as_dict ''get'' result of
        Inl e \<Rightarrow> Inl e
      | Inr r \<Rightarrow>
          (case unsafe_issues label rest of
             Inl e \<Rightarrow> Inl e
           | Inr later \<Rightarrow>
               Inr ((if \<not> truthy (dict_get r ''overall_safe'' (PBool False))
                     then [label @ file_path] else []) @ later)))"

definition validate_security :: "pyval \<Rightarrow> string + criterion_result" where
  "validate_security validation_results =
     (case as_dict ''get'' validation_results of
        Inl e \<Rightarrow> Inl e
      | Inr vr \<Rightarrow>
          (let security_results = dict_get vr ''security_results'' (PDict []) in
           if \<not> truthy security_results
           then Inr (absent_result ''Consider adding security scanning'')
           else (case as_dict ''items'' security_results of
                   Inl e \<Rightarrow> Inl e
                 | Inr entries \<Rightarrow>
                     (case unsafe_issues ''Security issues in '' entries of
                        Inl e \<Rightarrow> Inl e
                      | Inr found \<Rightarrow> Inr (issues_result found ''Address security issues'')))))"

definition validate_ethics :: "pyval \<Rightarrow> string + criterion_result" where
  "validate_ethics validation_results =
     (case as_dict ''get'' validation_results of
        Inl e \<Rightarrow> Inl e
      | Inr vr \<Rightarrow>
          (let ethics_results = dict_get vr ''ethics_results'' (PDict []) in
           if \<not> truthy ethics_results
           then Inr (absent_result ''Consider adding ethics review'')
           else (case as_dict ''items'' ethics_results of
                   Inl e \<Rightarrow> Inl e
                 | Inr entries \<Rightarrow>
                     (case unsafe_issues ''Ethical issues in '' entries of
                        Inl e \<Rightarrow> Inl e
                      | Inr found \<Rightarrow> Inr (issues_result found ''Address ethical issues'')))))"

definition validate_functionality :: "pyval \<Rightarrow> string + criterion_result" where
  "validate_functionality validation_results =
     Inr \<lparr>passed = True, issues = [], recommendations = []\<rparr>"

text \<open>
  \<open>_validate_criterion\<close>. The last branch returns a dictionary without the key
  \<open>recommendations\<close>; it is read only through \<open>.get("recommendations", [])\<close>, which the
  empty list stands for.
\<close>

definition validate_criterion ::
  "(pyval \<Rightarrow> string) \<Rightarrow> string \<Rightarrow> pyval \<Rightarrow> string + criterion_result" where
  "validate_criterion str_of criterion validation_results =
     (if criterion = ''code_quality'' then validate_code_quality str_of validation_results
      else if criterion = ''documentation'' then validate_documentation validation_results
      else if criterion = ''testing'' then validate_testing validation_results
      else if criterion = ''security'' then validate_security validation_results
      else if criterion = ''ethics'' then validate_ethics validation_results
      else if criterion = ''functionality'' then validate_functionality validation_results
      else Inr \<lparr>passed = False, issues = [''Unknown criterion: '' @ criterion],
                recommendations = []\<rparr>)"

subsection \<open>The aggregate\<close>

text \<open>The body of the loop of \<open>_perform_final_validation\<close> after the criterion is computed.\<close>

definition record_criterion ::
  "(string \<Rightarrow> string) \<Rightarrow> string \<Rightarrow> criterion_result \<Rightarrow> validation \<Rightarrow> validation" where
  "record_criterion lower_of criterion result v =
     (let v1 = v\<lparr>criteria := AList.update criterion result (criteria v)\<rparr> in
      if \<not> passed result \<and> issues result \<noteq> []
      then (let critical_issues = filter (is_critical lower_of) (issues result) in
            if critical_issues \<noteq> []
            then v1\<lparr>approved := False,
                    all_issues := all_issues v1 @ critical_issues,
                    all_recommendations := all_recommendations v1 @ recommendations result\<rparr>
            else v1\<lparr>all_recommendations := all_recommendations v1 @ recommendations result\<rparr>)
      else v1)"

fun validation_loop ::
  "(pyval \<Rightarrow> string) \<Rightarrow> (string \<Rightarrow> string) \<Rightarrow> string list \<Rightarrow> pyval \<Rightarrow> validation \<Rightarrow> string + validation" where
  "validation_loop str_of lower_of [] validation_results v = Inr v"
| "validation_loop str_of lower_of (criterion # rest) validation_results v =
     (case validate_criterion str_of criterion validation_results of
        Inl e \<Rightarrow> Inl e
      | Inr result \<Rightarrow>
          validation_loop str_of lower_of rest validation_results (record_criterion lower_of criterion result v))"

definition perform_final_validation ::
  "(pyval \<Rightarrow> string) \<Rightarrow> (string \<Rightarrow> string) \<Rightarrow> pyval \<Rightarrow> string + validation" where
  "perform_final_validation str_of lower_of validation_results =
     validation_loop str_of lower_of validation_criteria validation_results
       \<lparr>approved = True, criteria = [], all_issues = [], all_recommendations = []\<rparr>"

text \<open>The aggregate as the value stored in the response.\<close>

definition criterion_value :: "criterion_result \<Rightarrow> pyval" where
  "criterion_value r =
     PDict [(''passed'', PBool (passed r)), (''issues'', PList (map PStr (issues r))),
            (''recommendations'', PList (map PStr (recommendations r)))]"

definition validation_value :: "validation \<Rightarrow> pyval" where
  "validation_value v =
     PDict [(''approved'', PBool (approved v)),
            (''criteria'', PDict (map (\<lambda>(c, r). (c, criterion_value r)) (criteria v))),
            (''issues'', PList (map PStr (all_issues v))),
            (''recommendations'', PList (map PStr (all_recommendations v)))]"

text \<open>\<open>ValidatorAgent.execute\<close>: an exception of the validation becomes a failure response.\<close>

definition validator_execute ::
  "(pyval \<Rightarrow> string) \<Rightarrow> (string \<Rightarrow> string) \<Rightarrow> pydict \<Rightarrow> response" where
  "validator_execute str_of lower_of c =
     (case perform_final_validation str_of lower_of (dict_get c ''validation_results'' (PDict [])) of
        Inl e \<Rightarrow> create_response valid_id False (''Final validation failed: '' @ e) []
      | Inr final_validation \<Rightarrow>
          create_response valid_id (approved final_validation)
            (if approved final_validation then ''SUCCESS: Project approved for delivery''
             else ''ERROR: Project requires additional work'')
            [(''validation_results'', validation_value final_validation)])"

section \<open>The deployment agent\<close>

text \<open>
  \<open>_deploy_to_github\<close>, \<open>_deploy_as_executable\<close> and \<open>_deploy_source_only\<close> write files
  and run external tools; each catches its own exceptions and returns either a
  dictionary with \<open>success\<close> true and further keys, or one with \<open>success\<close> false and a
  message. They are parameters here, acting on the world \<open>'w\<close>.
\<close>

datatype deploy_result = Deployed pydict | DeployFailed string

type_synonym 'w deployer = "pydict \<Rightarrow> 'w \<Rightarrow> deploy_result \<times> 'w"

record 'w deployers =
  deploy_to_github :: "'w deployer"
  deploy_as_executable :: "'w deployer"
  deploy_source_only :: "'w deployer"

text \<open>The part of \<open>execute\<close> after the deployment method has returned.\<close>

definition deployment_outcome :: "string \<Rightarrow> deploy_result \<times> 'w \<Rightarrow> response \<times> 'w" where
  "deployment_outcome aid rw =
     (case rw of
        (Deployed result, w) \<Rightarrow>
          (create_response aid True ''SUCCESS: Deployment completed''
             ((''success'', PBool True) # result), w)
      | (DeployFailed m, w) \<Rightarrow>
          (create_response aid False (''Deployment failed: '' @ m) [], w))"

definition deployment_execute ::
  "string \<Rightarrow> 'w deployers \<Rightarrow> pydict \<Rightarrow> 'w \<Rightarrow> response \<times> 'w" where
  "deployment_execute aid dep c w =
     (let deployment_choice = dict_get c ''deployment_choice'' (PStr ''source_only'') in
      if py_eq_str deployment_choice ''github''
      then deployment_outcome aid (deploy_to_github dep c w)
      else if py_eq_str deployment_choice ''executable''
      then deployment_outcome aid (deploy_as_executable dep c w)
      else if py_eq_str deployment_choice ''source_only''
      then deployment_outcome aid (deploy_source_only dep c w)
      else (create_response aid False ''Invalid deployment option'' [], w))"

section \<open>Sample agents and states\<close>

text \<open>
  Small agents on the trivial world, and a state built from a registry given as a list.
  They serve as the concrete inputs at which the theorems below are instantiated.
\<close>

definition succeeding_agent :: "unit agent" where
  "succeeding_agent c w = (Inr (create_response ''agent'' True ''done'' []), c, w)"

definition failing_agent :: "string \<Rightarrow> unit agent" where
  "failing_agent m c w = (Inr (create_response ''agent'' False m []), c, w)"

definition raising_agent :: "string \<Rightarrow> unit agent" where
  "raising_agent m c w = (Inl m, c, w)"

definition confirming_agent :: "unit agent" where
  "confirming_agent c w =
     (Inr (create_response ''agent'' True ''scope confirmed'' [(''project_defined'', PBool True)]),
      c, w)"

definition sample_sys :: "string \<Rightarrow> (string \<times> unit agent) list \<Rightarrow> pydict \<Rightarrow> unit sys" where
  "sample_sys phase registry c =
     \<lparr>orch = \<lparr>agents = map_of registry, workflow_state = phase, paused = False,
              pause_reason = None\<rparr>,
      ctx = c, world = (), invoked = []\<rparr>"

definition paused_sys :: "string \<Rightarrow> string \<Rightarrow> pydict \<Rightarrow> unit sys" where
  "paused_sys phase reason c =
     \<lparr>orch = \<lparr>agents = Map.empty, workflow_state = phase, paused = True,
              pause_reason = Some reason\<rparr>,
      ctx = c, world = (), invoked = []\<rparr>"

definition unavailable_message :: string where
  "unavailable_message = ''Model gpt-4o-mini unavailable. Please try again later.''"

subsection \<open>Vocabulary for statements about one call\<close>

text \<open>
  \<open>phase_step p r s s'\<close>: the call either kept the orchestrator's fields, or it answered
  with a success response and moved the workflow state to \<open>p\<close>, changing nothing else.
\<close>

definition phase_step :: "string \<Rightarrow> (string + response) \<Rightarrow> 'w sys \<Rightarrow> 'w sys \<Rightarrow> bool" where
  "phase_step p r s s' \<longleftrightarrow>
     orch s' = orch s \<or>
     (orch s' = (orch s)\<lparr>workflow_state := p\<rparr> \<and> (\<exists>resp. r = Inr resp \<and> success resp))"

text \<open>The workflow state that follows a workflow state; the last one and unknown ones stay.\<close>

definition next_phase :: "string \<Rightarrow> string" where
  "next_phase p =
     (if p = ''initializing'' then ''definition''
      else if p = ''definition'' then ''development''
      else if p = ''development'' then ''delivery''
      else if p = ''delivery'' then ''completed''
      else p)"

text \<open>The reply of a registered sample agent to an empty context.\<close>

definition sample_reply :: "(string \<rightharpoonup> unit agent) \<Rightarrow> string \<Rightarrow> (string + response) option" where
  "sample_reply registry aid = map_option (\<lambda>ag. fst (ag [] ())) (registry aid)"

text \<open>
  A run through every phase: the registry holds the two keys the environment setup
  reads, a coordinator that confirms the scope and a repository agent; the development
  steps are not registered.
\<close>

definition happy_path :: "unit event list" where
  "happy_path =
     [Register ''env_agent'' succeeding_agent, Register ''env_001'' succeeding_agent,
      Register ''coord_001'' confirming_agent, Register ''repo_001'' succeeding_agent,
      Execute [], Execute [], Execute [], Execute []]"

section \<open>Vocabulary and sample inputs for the validator and the deployment agent\<close>

text \<open>
  \<open>blocking lower_of r\<close> is the test of \<open>_perform_final_validation\<close> under which a criterion
  result sets \<open>approved\<close> to false.
\<close>

definition blocking :: "(string \<Rightarrow> string) \<Rightarrow> criterion_result \<Rightarrow> bool" where
  "blocking lower_of r \<longleftrightarrow>
     \<not> passed r \<and> issues r \<noteq> [] \<and> filter (is_critical lower_of) (issues r) \<noteq> []"

text \<open>
  The five keys of the validation results the criteria read, and the results of the
  last five criteria when nothing is recorded for them.
\<close>

definition absent_criteria :: "(string \<times> criterion_result) list" where
  "absent_criteria =
     [(''documentation'', absent_result ''Consider adding more documentation''),
      (''testing'', absent_result ''Consider adding more comprehensive tests''),
      (''security'', absent_result ''Consider adding security scanning''),
      (''ethics'', absent_result ''Consider adding ethics review''),
      (''functionality'', \<lparr>passed = True, issues = [], recommendations = []\<rparr>)]"

definition result_keys :: "string list" where
  "result_keys =
     [''standards_results'', ''documentation_results'', ''test_results'', ''security_results'',
      ''ethics_results'']"

text \<open>
  A stand-in for \<open>str\<close> that is exact on strings, and a stand-in for \<open>str.lower\<close> on
  UTF-8 bytes. The latter lower-cases the letters A to Z, turns the Kelvin sign (U+212A,
  bytes E2 84 AA) into \<open>k\<close> and the capital I with dot above (U+0130, bytes C4 B0) into
  \<open>i\<close> followed by the combining dot above (U+0307, bytes CC 87), and keeps every other
  byte. These two are the only code points beyond ASCII whose lower-case form holds an
  ASCII character. The stand-ins are used at the sample inputs only; the theorems hold
  for every \<open>str_of\<close> and \<open>lower_of\<close>.
\<close>

definition sample_str :: "pyval \<Rightarrow> string" where
  "sample_str v = (case v of PStr s \<Rightarrow> s | _ \<Rightarrow> [])"

definition lower_char :: "char \<Rightarrow> char" where
  "lower_char c =
     (let n = (of_char c :: nat) in if 65 \<le> n \<and> n \<le> 90 then char_of (n + 32) else c)"

fun sample_lower :: "string \<Rightarrow> string" where
  "sample_lower [] = []"
| "sample_lower (c # cs) =
     (if c = CHR 0xE2 \<and> take 2 cs = [CHR 0x84, CHR 0xAA]
      then CHR ''k'' # sample_lower (drop 2 cs)
      else if c = CHR 0xC4 \<and> take 1 cs = [CHR 0xB0]
      then [CHR ''i'', CHR 0xCC, CHR 0x87] @ sample_lower (drop 1 cs)
      else lower_char c # sample_lower cs)"

text \<open>
  Recorded results that differ in the message of one tool; in the third the message
  spells BROKEN with the Kelvin sign in place of the letter K.
\<close>

definition syntax_error_results :: pyval where
  "syntax_error_results =
     PDict [(''standards_results'',
             PDict [(''flake8'', PDict [(''status'', PStr ''has_issues''),
                                        (''message'', PStr ''Syntax Error in module X'')])])]"

definition kelvin_sign_results :: pyval where
  "kelvin_sign_results =
     PDict [(''standards_results'',
             PDict [(''flake8'', PDict [(''status'', PStr ''has_issues''),
                                        (''message'',
                                         PStr (''BRO'' @ [CHR 0xE2, CHR 0x84, CHR 0xAA]
                                                 @ ''EN build''))])])]"

definition style_warning_results :: pyval where
  "style_warning_results =
     PDict [(''standards_results'',
             PDict [(''flake8'', PDict [(''status'', PStr ''has_issues''),
                                        (''message'', PStr ''3 minor style warnings'')])])]"

text \<open>Deployment methods on the trivial world.\<close>

definition sample_deployers :: "unit deployers" where
  "sample_deployers =
     \<lparr>deploy_to_github = (\<lambda>c w. (DeployFailed ''GitHub deployment failed: no git'', w)),
      deploy_as_executable = (\<lambda>c w. (DeployFailed ''Executable build failed: no builder'', w)),
      deploy_source_only = (\<lambda>c w. (Deployed [(''deployment_type'', PStr ''source_only'')], w))\<rparr>"

text \<open>
  The validation results on which no \<open>.get\<close> or \<open>.items\<close> of the validator meets a
  value that is not a dictionary: the value under each of the five keys is falsy or has
  the shape the criterion reads.
\<close>

definition is_dict :: "pyval \<Rightarrow> bool" where
  "is_dict v = (case v of PDict d \<Rightarrow> True | _ \<Rightarrow> False)"

definition dict_of_dicts :: "pyval \<Rightarrow> bool" where
  "dict_of_dicts v = (case v of PDict entries \<Rightarrow> list_all (\<lambda>(k, r). is_dict r) entries | _ \<Rightarrow> False)"

definition well_formed_results :: "pyval \<Rightarrow> bool" where
  "well_formed_results validation_results =
     (case validation_results of
        PDict d \<Rightarrow>
          (\<not> truthy (dict_get d ''standards_results'' (PDict []))
             \<or> dict_of_dicts (dict_get d ''standards_results'' (PDict [])))
          \<and> (\<not> truthy (dict_get d ''documentation_results'' (PDict []))
             \<or> is_dict (dict_get d ''documentation_results'' (PDict [])))
          \<and> (\<not> truthy (dict_get d ''test_results'' (PDict []))
             \<or> (case dict_get d ''test_results'' (PDict []) of
                   PDict t \<Rightarrow> is_dict (dict_get t ''unit_tests'' (PDict []))
                 | _ \<Rightarrow> False))
          \<and> (\<not> truthy (dict_get d ''security_results'' (PDict []))
             \<or> dict_of_dicts (dict_get d ''security_results'' (PDict [])))
          \<and> (\<not> truthy (dict_get d ''ethics_results'' (PDict []))
             \<or> dict_of_dicts (dict_get d ''ethics_results'' (PDict [])))
      | _ \<Rightarrow> False)"

section \<open>Facts about the development loop\<close>

lemma call_agent_orch: "call_agent s aid ag = (r, s') \<Longrightarrow> orch s' = orch s"
  by (auto simp: call_agent_def split: prod.splits)

lemma call_agent_invoked: "call_agent s aid ag = (r, s') \<Longrightarrow> invoked s' = invoked s @ [aid]"
  by (auto simp: call_agent_def split: prod.splits)

lemma steps_succeed_dev_loop:
  "steps_succeed steps s s' \<Longrightarrow> dev_loop steps s = (Inr None, s')"
  by (induction rule: steps_succeed.induct) auto

lemma dev_loop_steps_succeed:
  "dev_loop steps s = (Inr None, s') \<Longrightarrow> steps_succeed steps s s'"
proof (induction steps s rule: dev_loop.induct)
  case (1 s)
  then show ?case by (simp add: steps_succeed.no_steps)
next
  case (2 aid agent_name description rest s)
  show ?case
  proof (cases "agents (orch s) aid")
    case None
    with 2 show ?thesis by (simp add: steps_succeed.step_skipped)
  next
    case (Some ag)
    obtain q s1 where c: "call_agent s aid ag = (q, s1)" by (cases "call_agent s aid ag")
    show ?thesis
    proof (cases q)
      case (Inl e)
      with 2(3) Some c show ?thesis by simp
    next
      case (Inr result)
      show ?thesis
      proof (cases "success result")
        case True
        with 2(3) Some c Inr have d: "dev_loop rest s1 = (Inr None, s')" by simp
        have "steps_succeed rest s1 s'"
          using 2(2) Some c Inr True d by simp
        with Some c Inr True show ?thesis
          by (auto intro: steps_succeed.step_succeeded)
      next
        case False
        with 2(3) Some c Inr show ?thesis by simp
      qed
    qed
  qed
qed

lemma dev_loop_append:
  "dev_loop (xs @ ys) s =
     (case dev_loop xs s of (Inr None, s1) \<Rightarrow> dev_loop ys s1 | other \<Rightarrow> other)"
  by (induction xs s rule: dev_loop.induct)
     (auto split: option.splits prod.splits sum.splits)

lemma steps_succeed_orch: "steps_succeed steps s s' \<Longrightarrow> orch s' = orch s"
  by (induction rule: steps_succeed.induct) (auto simp: call_agent_orch)

lemma steps_succeed_invoked:
  "steps_succeed steps s s' \<Longrightarrow> invoked s' = invoked s @ registered_ids (orch s) steps"
proof (induction rule: steps_succeed.induct)
  case (no_steps s)
  then show ?case by (simp add: registered_ids_def)
next
  case (step_skipped s aid rest s' agent_name description)
  then show ?case by (simp add: registered_ids_def)
next
  case (step_succeeded s aid ag result s1 rest s' agent_name description)
  then show ?case
    by (simp add: registered_ids_def call_agent_orch call_agent_invoked)
qed

text \<open>Whatever way the loop ends, it keeps the orchestrator and calls registered agents only.\<close>

lemma dev_loop_effect:
  "dev_loop steps s = (r, s') \<Longrightarrow>
   orch s' = orch s \<and>
   (\<exists>new. invoked s' = invoked s @ new \<and> set new \<subseteq> set (registered_ids (orch s) steps))"
proof (induction steps s arbitrary: r s' rule: dev_loop.induct)
  case (1 s)
  then show ?case by simp
next
  case (2 aid agent_name description rest s)
  show ?case
  proof (cases "agents (orch s) aid")
    case None
    with 2(3) have "dev_loop rest s = (r, s')" by simp
    from 2(1)[OF None this] None show ?thesis by (auto simp: registered_ids_def)
  next
    case (Some ag)
    obtain q s1 where c: "call_agent s aid ag = (q, s1)" by (cases "call_agent s aid ag")
    have o1: "orch s1 = orch s" using c by (rule call_agent_orch)
    have i1: "invoked s1 = invoked s @ [aid]" using c by (rule call_agent_invoked)
    have reg: "aid \<in> set (registered_ids (orch s) ((aid, agent_name, description) # rest))"
      using Some by (simp add: registered_ids_def)
    show ?thesis
    proof (cases q)
      case (Inl e)
      with 2(3) Some c have "s' = s1" by simp
      with o1 i1 reg show ?thesis by auto
    next
      case (Inr result)
      show ?thesis
      proof (cases "success result")
        case True
        with 2(3) Some c Inr have d: "dev_loop rest s1 = (r, s')" by simp
        have nn: "\<not> \<not> success result" using True by simp
        have "orch s' = orch s1 \<and>
              (\<exists>new. invoked s' = invoked s1 @ new \<and> set new \<subseteq> set (registered_ids (orch s1) rest))"
          by (rule 2(2)[OF Some c[symmetric] Inr nn d])
        then obtain new where n: "orch s' = orch s1" "invoked s' = invoked s1 @ new"
          "set new \<subseteq> set (registered_ids (orch s1) rest)" by blast
        have "invoked s' = invoked s @ (aid # new)" using n i1 by simp
        moreover have "set (aid # new) \<subseteq> set (registered_ids (orch s) ((aid, agent_name, description) # rest))"
          using n(3) o1 Some by (auto simp: registered_ids_def)
        ultimately show ?thesis using n(1) o1 by (intro conjI exI[of _ "aid # new"]) simp_all
      next
        case False
        with 2(3) Some c Inr have "s' = s1" by simp
        with o1 i1 reg show ?thesis by auto
      qed
    qed
  qed
qed

lemma distinct_dev_steps: "distinct (map fst dev_steps)"
  by (simp add: dev_steps_def)

section \<open>The development phase stops at the first failing step\<close>

text \<open>
  Claim C1. Let the fixed list of development steps be split at a step \<open>k\<close>: the steps
  before it all succeed (those that are registered; the others are passed over), and
  step \<open>k\<close> is registered and returns a response with \<open>success\<close> false. Then the phase
  returns the failure response that names step \<open>k\<close> and carries its message; the agents
  called are the registered steps before \<open>k\<close> followed by \<open>k\<close>, each once, and nothing
  after \<open>k\<close>; the orchestrator's fields, the workflow state among them, are unchanged.
\<close>

theorem development_phase_stops_at_first_failure:
  assumes steps: "dev_steps = pre @ (aid, agent_name, description) # post"
    and before: "steps_succeed pre s s1"
    and registered: "agents (orch s1) aid = Some ag"
    and called: "call_agent s1 aid ag = (Inr result, s2)"
    and failed: "\<not> success result"
  shows "execute_development_phase s = (Inr (step_failed_response agent_name result), s2)
       \<and> invoked s2 = invoked s @ registered_ids (orch s) pre @ [aid]
       \<and> distinct (registered_ids (orch s) pre @ [aid])
       \<and> success (step_failed_response agent_name result) = False
       \<and> message (step_failed_response agent_name result) =
           ''Development step failed: '' @ agent_name @ '' - '' @ message result
       \<and> orch s2 = orch s"
proof -
  have l1: "dev_loop pre s = (Inr None, s1)"
    using before by (rule steps_succeed_dev_loop)
  have l2: "dev_loop ((aid, agent_name, description) # post) s1 =
              (Inr (Some (step_failed_response agent_name result)), s2)"
    using registered called failed by simp
  have run: "dev_loop dev_steps s = (Inr (Some (step_failed_response agent_name result)), s2)"
  proof -
    have "dev_loop (pre @ (aid, agent_name, description) # post) s =
            dev_loop ((aid, agent_name, description) # post) s1"
      by (simp only: dev_loop_append l1 prod.case sum.case option.case)
    then show ?thesis by (simp only: steps l2)
  qed
  have a: "execute_development_phase s = (Inr (step_failed_response agent_name result), s2)"
    by (simp add: execute_development_phase_def run)
  have o1: "orch s1 = orch s" using before by (rule steps_succeed_orch)
  have i1: "invoked s1 = invoked s @ registered_ids (orch s) pre"
    using before by (rule steps_succeed_invoked)
  have b: "invoked s2 = invoked s @ registered_ids (orch s) pre @ [aid]"
    using call_agent_invoked[OF called] i1 by simp
  have "distinct (map fst (pre @ (aid, agent_name, description) # post))"
    using distinct_dev_steps by (simp only: steps)
  then have "distinct (map fst pre @ [aid])" by auto
  then have c: "distinct (registered_ids (orch s) pre @ [aid])"
    by (auto simp: registered_ids_def)
  have d: "orch s2 = orch s" using call_agent_orch[OF called] o1 by simp
  have e: "success (step_failed_response agent_name result) = False"
    by (simp add: step_failed_response_def create_response_def)
  have f: "message (step_failed_response agent_name result) =
           ''Development step failed: '' @ agent_name @ '' - '' @ message result"
    by (simp add: step_failed_response_def create_response_def)
  show ?thesis using a b c d e f by blast
qed

theorem development_phase_stops_at_first_failure_witness:
  "fst (execute_development_phase
          (sample_sys ''development''
             [(''arch_001'', succeeding_agent), (''core_001'', failing_agent ''boom''),
              (''backup_001'', succeeding_agent)] []))
     = Inr (step_failed_response ''Core Logic Agent'' (create_response ''agent'' False ''boom'' []))
   \<and> invoked (snd (execute_development_phase
          (sample_sys ''development''
             [(''arch_001'', succeeding_agent), (''core_001'', failing_agent ''boom''),
              (''backup_001'', succeeding_agent)] [])))
     = [''arch_001'', ''core_001'']"
proof -
  define s0 where "s0 = sample_sys ''development''
             [(''arch_001'', succeeding_agent), (''core_001'', failing_agent ''boom''),
              (''backup_001'', succeeding_agent)] []"
  define s1 where "s1 = s0\<lparr>ctx := [], world := (), invoked := invoked s0 @ [''arch_001'']\<rparr>"
  define s2 where "s2 = s1\<lparr>ctx := [], world := (), invoked := invoked s1 @ [''core_001'']\<rparr>"
  have h1: "dev_steps =
      [(''arch_001'', ''Architect Agent'', ''Designing system architecture'')]
      @ (''core_001'', ''Core Logic Agent'', ''Writing Python code'') # drop 2 dev_steps"
    by (simp add: dev_steps_def)
  have c1: "call_agent s0 ''arch_001'' succeeding_agent =
              (Inr (create_response ''agent'' True ''done'' []), s1)"
    by (simp add: call_agent_def succeeding_agent_def s1_def s0_def sample_sys_def)
  have h2: "steps_succeed [(''arch_001'', ''Architect Agent'', ''Designing system architecture'')] s0 s1"
    by (rule steps_succeed.step_succeeded[OF _ c1 _ steps_succeed.no_steps])
       (simp_all add: s0_def sample_sys_def create_response_def)
  have h3: "agents (orch s1) ''core_001'' = Some (failing_agent ''boom'')"
    by (simp add: s1_def s0_def sample_sys_def)
  have h4: "call_agent s1 ''core_001'' (failing_agent ''boom'') =
              (Inr (create_response ''agent'' False ''boom'' []), s2)"
    by (simp add: call_agent_def failing_agent_def s2_def s1_def s0_def sample_sys_def)
  have h5: "\<not> success (create_response ''agent'' False ''boom'' [])"
    by (simp add: create_response_def)
  have i0: "invoked s0 = []" by (simp add: s0_def sample_sys_def)
  have r0: "registered_ids (orch s0) [(''arch_001'', ''Architect Agent'', ''Designing system architecture'')] = [''arch_001'']"
    by (simp add: registered_ids_def s0_def sample_sys_def)
  from development_phase_stops_at_first_failure[OF h1 h2 h3 h4 h5]
  have "execute_development_phase s0 =
          (Inr (step_failed_response ''Core Logic Agent'' (create_response ''agent'' False ''boom'' [])), s2)"
    and "invoked s2 = invoked s0 @ registered_ids (orch s0) [(''arch_001'', ''Architect Agent'', ''Designing system architecture'')] @ [''core_001'']"
    by blast+
  then show ?thesis unfolding s0_def[symmetric] by (simp add: i0 r0)
qed

section \<open>Facts about one call of the orchestrator\<close>

lemma environment_setup_step:
  "execute_environment_setup s = (r, s') \<Longrightarrow> phase_step ''definition'' r s s'"
  by (auto simp: execute_environment_setup_def phase_step_def set_workflow_state_def
        call_agent_def create_response_def
      split: option.splits prod.splits sum.splits if_splits)

lemma definition_phase_step:
  "execute_definition_phase s = (r, s') \<Longrightarrow> phase_step ''development'' r s s'"
  by (auto simp: execute_definition_phase_def phase_step_def set_workflow_state_def
        call_agent_def create_response_def
      split: option.splits prod.splits sum.splits if_splits)

lemma delivery_phase_step:
  "execute_delivery_phase s = (r, s') \<Longrightarrow> phase_step ''completed'' r s s'"
  by (auto simp: execute_delivery_phase_def phase_step_def set_workflow_state_def
        call_agent_def create_response_def
      split: option.splits prod.splits sum.splits if_splits)

lemma development_phase_step:
  assumes "execute_development_phase s = (r, s')"
  shows "phase_step ''delivery'' r s s'"
proof -
  obtain q s1 where l: "dev_loop dev_steps s = (q, s1)" by (cases "dev_loop dev_steps s")
  have o: "orch s1 = orch s" using dev_loop_effect[OF l] by simp
  show ?thesis
  proof (cases q)
    case (Inl e)
    with assms l o show ?thesis by (simp add: execute_development_phase_def phase_step_def)
  next
    case (Inr x)
    show ?thesis
    proof (cases x)
      case None
      with assms l o Inr show ?thesis
        by (auto simp: execute_development_phase_def phase_step_def set_workflow_state_def
              create_response_def)
    next
      case (Some resp)
      with assms l o Inr show ?thesis
        by (auto simp: execute_development_phase_def phase_step_def)
    qed
  qed
qed

lemma pause_resume_effect:
  "handle_pause_resume s = (r, s') \<Longrightarrow>
   workflow_state (orch s') = workflow_state (orch s) \<and> agents (orch s') = agents (orch s)
   \<and> invoked s' = invoked s"
  by (auto simp: handle_pause_resume_def resume_workflow_def split: if_splits)

text \<open>The agents a call may reach: every call appends to the log, and only registered ids.\<close>

lemma environment_setup_invoked:
  "execute_environment_setup s = (r, s') \<Longrightarrow>
   \<exists>new. invoked s' = invoked s @ new \<and> set new \<subseteq> dom (agents (orch s))"
  by (auto simp: execute_environment_setup_def set_workflow_state_def call_agent_def
      split: option.splits prod.splits sum.splits if_splits)

lemma definition_phase_invoked:
  "execute_definition_phase s = (r, s') \<Longrightarrow>
   \<exists>new. invoked s' = invoked s @ new \<and> set new \<subseteq> dom (agents (orch s))"
  by (auto simp: execute_definition_phase_def set_workflow_state_def call_agent_def
      split: option.splits prod.splits sum.splits if_splits)

lemma delivery_phase_invoked:
  "execute_delivery_phase s = (r, s') \<Longrightarrow>
   \<exists>new. invoked s' = invoked s @ new \<and> set new \<subseteq> dom (agents (orch s))"
  by (auto simp: execute_delivery_phase_def set_workflow_state_def call_agent_def
      split: option.splits prod.splits sum.splits if_splits)

lemma registered_ids_dom: "set (registered_ids self steps) \<subseteq> dom (agents self)"
  by (auto simp: registered_ids_def)

lemma development_phase_invoked:
  assumes "execute_development_phase s = (r, s')"
  shows "\<exists>new. invoked s' = invoked s @ new \<and> set new \<subseteq> set (registered_ids (orch s) dev_steps)"
proof -
  obtain q s1 where l: "dev_loop dev_steps s = (q, s1)" by (cases "dev_loop dev_steps s")
  from dev_loop_effect[OF l] obtain new where
    n: "invoked s1 = invoked s @ new" "set new \<subseteq> set (registered_ids (orch s) dev_steps)"
    by blast
  have "invoked s' = invoked s1"
    using assms l
    by (auto simp: execute_development_phase_def set_workflow_state_def
        split: sum.splits option.splits)
  with n show ?thesis by auto
qed

lemma dispatch_unpaused:
  assumes "dispatch s = (r, s')" and "\<not> paused (orch s)"
  shows "phase_step (next_phase (workflow_state (orch s))) r s s'"
proof -
  consider (a) "workflow_state (orch s) = ''initializing''"
    | (b) "workflow_state (orch s) = ''definition''"
    | (c) "workflow_state (orch s) = ''development''"
    | (d) "workflow_state (orch s) = ''delivery''"
    | (e) "workflow_state (orch s) \<noteq> ''initializing''" "workflow_state (orch s) \<noteq> ''definition''"
          "workflow_state (orch s) \<noteq> ''development''" "workflow_state (orch s) \<noteq> ''delivery''"
    by blast
  then show ?thesis
  proof cases
    case a
    with assms have "execute_environment_setup s = (r, s')" by (simp add: dispatch_def)
    then show ?thesis using a by (simp add: next_phase_def environment_setup_step)
  next
    case b
    with assms have "execute_definition_phase s = (r, s')" by (simp add: dispatch_def)
    then show ?thesis using b by (simp add: next_phase_def definition_phase_step)
  next
    case c
    with assms have "execute_development_phase s = (r, s')" by (simp add: dispatch_def)
    then show ?thesis using c by (simp add: next_phase_def development_phase_step)
  next
    case d
    with assms have "execute_delivery_phase s = (r, s')" by (simp add: dispatch_def)
    then show ?thesis using d by (simp add: next_phase_def delivery_phase_step)
  next
    case e
    with assms have "s' = s" by (simp add: dispatch_def)
    then show ?thesis by (simp add: phase_step_def)
  qed
qed

lemma dispatch_paused:
  assumes "dispatch s = (r, s')" and "paused (orch s)"
  shows "handle_pause_resume s = (r, s')"
  using assms by (simp add: dispatch_def)

lemma dispatch_invoked:
  assumes "dispatch s = (r, s')"
  shows "\<exists>new. invoked s' = invoked s @ new \<and> set new \<subseteq> dom (agents (orch s))"
proof (cases "paused (orch s)")
  case True
  with assms have "invoked s' = invoked s"
    using pause_resume_effect[of s r s'] by (simp add: dispatch_def)
  then show ?thesis by simp
next
  case False
  consider (a) "workflow_state (orch s) = ''initializing''"
    | (b) "workflow_state (orch s) = ''definition''"
    | (c) "workflow_state (orch s) = ''development''"
    | (d) "workflow_state (orch s) = ''delivery''"
    | (e) "workflow_state (orch s) \<noteq> ''initializing''" "workflow_state (orch s) \<noteq> ''definition''"
          "workflow_state (orch s) \<noteq> ''development''" "workflow_state (orch s) \<noteq> ''delivery''"
    by blast
  then show ?thesis
  proof cases
    case a
    with assms False have "execute_environment_setup s = (r, s')" by (simp add: dispatch_def)
    then show ?thesis by (rule environment_setup_invoked)
  next
    case b
    with assms False have "execute_definition_phase s = (r, s')" by (simp add: dispatch_def)
    then show ?thesis by (rule definition_phase_invoked)
  next
    case c
    with assms False have "execute_development_phase s = (r, s')" by (simp add: dispatch_def)
    from development_phase_invoked[OF this] registered_ids_dom[of "orch s" dev_steps]
    show ?thesis by blast
  next
    case d
    with assms False have "execute_delivery_phase s = (r, s')" by (simp add: dispatch_def)
    then show ?thesis by (rule delivery_phase_invoked)
  next
    case e
    with assms False have "s' = s" by (simp add: dispatch_def)
    then show ?thesis by simp
  qed
qed

lemma execute_dispatch:
  "dispatch s = (r, s') \<Longrightarrow>
   execute s = ((case r of Inr resp \<Rightarrow> resp
                 | Inl e \<Rightarrow> create_response orch_id False (''Workflow execution failed: '' @ e) []), s')"
  by (simp add: execute_def split: sum.splits)

lemma execute_snd: "dispatch s = (r, s') \<Longrightarrow> snd (execute s) = s'"
  by (simp add: execute_dispatch)

lemma execute_invoked:
  "\<exists>new. invoked (snd (execute s)) = invoked s @ new \<and> set new \<subseteq> dom (agents (orch s))"
proof -
  obtain r s' where d: "dispatch s = (r, s')" by (cases "dispatch s")
  from dispatch_invoked[OF d] show ?thesis by (simp add: execute_snd[OF d])
qed

lemma execute_agents: "agents (orch (snd (execute s))) = agents (orch s)"
proof -
  obtain r s' where d: "dispatch s = (r, s')" by (cases "dispatch s")
  show ?thesis
  proof (cases "paused (orch s)")
    case True
    from pause_resume_effect[OF dispatch_paused[OF d True]] show ?thesis
      by (simp add: execute_snd[OF d])
  next
    case False
    from dispatch_unpaused[OF d False] show ?thesis
      by (auto simp: execute_snd[OF d] phase_step_def)
  qed
qed

lemma execute_workflow_state:
  "workflow_state (orch (snd (execute s))) = workflow_state (orch s) \<or>
   (\<not> paused (orch s) \<and> success (fst (execute s)) \<and>
    workflow_state (orch (snd (execute s))) = next_phase (workflow_state (orch s)))"
proof -
  obtain r s' where d: "dispatch s = (r, s')" by (cases "dispatch s")
  show ?thesis
  proof (cases "paused (orch s)")
    case True
    from pause_resume_effect[OF dispatch_paused[OF d True]] show ?thesis
      by (simp add: execute_snd[OF d])
  next
    case False
    from dispatch_unpaused[OF d False] False show ?thesis
      by (auto simp: execute_dispatch[OF d] phase_step_def)
  qed
qed

lemma phase_rank_next:
  "phase_rank p = Some n \<Longrightarrow>
   phase_rank (next_phase p) = Some n \<or> phase_rank (next_phase p) = Some (Suc n)"
  by (auto simp: phase_rank_def next_phase_def split: if_splits)

section \<open>A development step that is not registered is passed over\<close>

text \<open>
  Claim C9. If an id of the fixed list of development steps is not in the registry,
  the development phase never calls it: the calls the phase adds to the log do not
  contain the id. The omission raises nothing and records nothing; whenever the steps
  that are registered all succeed, the phase answers with a success response, moves
  the workflow state to \<open>delivery\<close>, and has called the registered steps only.
\<close>

theorem unregistered_development_step_is_skipped:
  assumes step: "(aid, agent_name, description) \<in> set dev_steps"
    and unregistered: "agents (orch s) aid = None"
  shows "(\<exists>new. invoked (snd (execute_development_phase s)) = invoked s @ new \<and> aid \<notin> set new)
       \<and> (\<forall>s1. steps_succeed dev_steps s s1 \<longrightarrow>
             (\<exists>r. execute_development_phase s = (Inr r, set_workflow_state ''delivery'' s1)
                  \<and> success r
                  \<and> invoked s1 = invoked s @ registered_ids (orch s) dev_steps
                  \<and> aid \<notin> set (registered_ids (orch s) dev_steps)))"
proof -
  have notreg: "aid \<notin> set (registered_ids (orch s) dev_steps)"
    using unregistered by (simp add: registered_ids_def)
  obtain r s' where e: "execute_development_phase s = (r, s')"
    by (cases "execute_development_phase s")
  from development_phase_invoked[OF e] obtain new where
    "invoked s' = invoked s @ new" "set new \<subseteq> set (registered_ids (orch s) dev_steps)"
    by blast
  with notreg have a: "\<exists>new. invoked (snd (execute_development_phase s)) = invoked s @ new \<and> aid \<notin> set new"
    unfolding e by auto
  have b: "\<exists>r. execute_development_phase s = (Inr r, set_workflow_state ''delivery'' s1)
                  \<and> success r
                  \<and> invoked s1 = invoked s @ registered_ids (orch s) dev_steps
                  \<and> aid \<notin> set (registered_ids (orch s) dev_steps)"
    if ok: "steps_succeed dev_steps s s1" for s1
  proof -
    have l: "dev_loop dev_steps s = (Inr None, s1)" using ok by (rule steps_succeed_dev_loop)
    have i: "invoked s1 = invoked s @ registered_ids (orch s) dev_steps"
      using ok by (rule steps_succeed_invoked)
    show ?thesis using l i notreg
      by (simp add: execute_development_phase_def create_response_def)
  qed
  from a b show ?thesis by blast
qed

theorem unregistered_development_step_is_skipped_witness:
  "invoked (snd (execute_development_phase
       (sample_sys ''development'' [(''arch_001'', succeeding_agent)] []))) = [''arch_001'']
   \<and> (\<exists>r. fst (execute_development_phase
       (sample_sys ''development'' [(''arch_001'', succeeding_agent)] [])) = Inr r \<and> success r)
   \<and> workflow_state (orch (snd (execute_development_phase
       (sample_sys ''development'' [(''arch_001'', succeeding_agent)] [])))) = ''delivery''"
proof -
  define s0 where "s0 = sample_sys ''development'' [(''arch_001'', succeeding_agent)] []"
  define s1 where "s1 = s0\<lparr>ctx := [], world := (), invoked := invoked s0 @ [''arch_001'']\<rparr>"
  have h1: "(''core_001'', ''Core Logic Agent'', ''Writing Python code'') \<in> set dev_steps"
    by (simp add: dev_steps_def)
  have h2: "agents (orch s0) ''core_001'' = None"
    by (simp add: s0_def sample_sys_def)
  have l: "dev_loop dev_steps s0 = (Inr None, s1)"
    by (simp add: dev_steps_def s0_def s1_def sample_sys_def call_agent_def
          succeeding_agent_def create_response_def)
  have h3: "steps_succeed dev_steps s0 s1" using l by (rule dev_loop_steps_succeed)
  have r0: "registered_ids (orch s0) dev_steps = [''arch_001'']"
    by (simp add: registered_ids_def dev_steps_def s0_def sample_sys_def)
  have i0: "invoked s0 = []" by (simp add: s0_def sample_sys_def)
  from unregistered_development_step_is_skipped[OF h1 h2] h3
  obtain r where "execute_development_phase s0 = (Inr r, set_workflow_state ''delivery'' s1)"
    "success r" "invoked s1 = invoked s0 @ registered_ids (orch s0) dev_steps"
    by blast
  then show ?thesis unfolding s0_def[symmetric]
    by (simp add: r0 i0 set_workflow_state_def)
qed

section \<open>Registering an agent\<close>

text \<open>
  Claim C8 says that registering into an occupied slot fails and that registering
  after the first run fails. The source has neither check. At the inputs below the
  second registration under \<open>arch_001\<close> has replaced the first agent, and a
  registration made after a call of \<open>execute\<close> is in the registry.
\<close>

theorem register_agent_duplicate_counterexample:
  "sample_reply
     (agents (register_agent
                (register_agent new_orchestrator ''arch_001'' succeeding_agent)
                ''arch_001'' (failing_agent ''second'')))
     ''arch_001''
     = Some (Inr (create_response ''agent'' False ''second'' []))
   \<and> sample_reply
        (agents (orch (run_events [Execute [], Register ''late_001'' succeeding_agent]
                         (initial_sys ()))))
        ''late_001''
     = Some (Inr (create_response ''agent'' True ''done'' []))"
  by (simp add: sample_reply_def register_agent_def new_orchestrator_def failing_agent_def succeeding_agent_def
        run_events_def initial_sys_def)

text \<open>
  Claim C8, amended. \<open>register_agent\<close> always succeeds: it stores the agent under its
  id, replacing an agent already stored there, and changes no other field; it does so
  after any sequence of earlier events, calls of \<open>execute\<close> included.
\<close>

theorem register_agent_always_replaces:
  "agents (register_agent self aid ag) = (agents self)(aid \<mapsto> ag)
   \<and> agents (register_agent (register_agent self aid earlier) aid ag) aid = Some ag
   \<and> workflow_state (register_agent self aid ag) = workflow_state self
   \<and> paused (register_agent self aid ag) = paused self
   \<and> pause_reason (register_agent self aid ag) = pause_reason self
   \<and> agents (orch (run_events (evs @ [Register aid ag]) s)) aid = Some ag"
  by (simp add: register_agent_def run_events_def)

section \<open>Resuming a paused orchestrator\<close>

text \<open>
  Claim C2 says that the resume phrase is compared without regard to case. The source
  compares with \<open>==\<close>: at the input below the orchestrator is paused, the user input is
  \<open>try again\<close>, and the call is rejected and the orchestrator stays paused.
\<close>

theorem resume_phrase_case_counterexample:
  "success (fst (execute (paused_sys ''development'' ''tool unavailable''
                            [(''user_input'', PStr ''try again'')]))) = False
   \<and> paused (orch (snd (execute (paused_sys ''development'' ''tool unavailable''
                            [(''user_input'', PStr ''try again'')])))) = True"
  by (simp add: execute_def dispatch_def handle_pause_resume_def paused_sys_def dict_get_def
        py_eq_str_def paused_response_def create_response_def)

text \<open>
  Claim C2, amended. While the orchestrator is paused, a user input that is exactly
  the string \<open>Try again\<close> clears the paused flag and the reason and leaves the phase;
  every other input (another capitalisation, another value, no input) is answered
  with \<open>success\<close> false, the stored reason inside the message and under the key
  \<open>reason\<close>, and nothing is changed.
\<close>

theorem paused_orchestrator_accepts_only_exact_phrase:
  assumes "paused (orch s)"
  shows "(dict_get (ctx s) ''user_input'' PNone = PStr ''Try again'' \<longrightarrow>
            execute s = (resumed_response, s\<lparr>orch := resume_workflow (orch s)\<rparr>)
            \<and> success resumed_response
            \<and> paused (orch (snd (execute s))) = False
            \<and> pause_reason (orch (snd (execute s))) = None
            \<and> workflow_state (orch (snd (execute s))) = workflow_state (orch s))
       \<and> (dict_get (ctx s) ''user_input'' PNone \<noteq> PStr ''Try again'' \<longrightarrow>
            execute s = (paused_response (pause_reason (orch s)), s)
            \<and> success (paused_response (pause_reason (orch s))) = False
            \<and> message (paused_response (pause_reason (orch s))) =
                 pause_sign @ '' Workflow paused: '' @ reason_text (pause_reason (orch s))
                   @ ''. Type 'Try again' to resume.''
            \<and> dict_get (data (paused_response (pause_reason (orch s)))) ''reason'' PNone =
                 reason_value (pause_reason (orch s)))"
  using assms
  by (simp add: execute_def dispatch_def handle_pause_resume_def py_eq_str_def
        resumed_response_def paused_response_def create_response_def resume_workflow_def
        dict_get_def)

theorem paused_orchestrator_accepts_only_exact_phrase_witness:
  "execute (paused_sys ''development'' ''tool unavailable'' [(''user_input'', PStr ''Try again'')])
     = (resumed_response,
        (paused_sys ''development'' ''tool unavailable'' [(''user_input'', PStr ''Try again'')])
          \<lparr>orch := resume_workflow
             (orch (paused_sys ''development'' ''tool unavailable''
                      [(''user_input'', PStr ''Try again'')]))\<rparr>)
   \<and> execute (paused_sys ''development'' ''tool unavailable'' [(''user_input'', PStr ''TRY AGAIN'')])
     = (paused_response (Some ''tool unavailable''),
        paused_sys ''development'' ''tool unavailable'' [(''user_input'', PStr ''TRY AGAIN'')])
   \<and> execute (paused_sys ''development'' ''tool unavailable'' [])
     = (paused_response (Some ''tool unavailable''),
        paused_sys ''development'' ''tool unavailable'' [])
   \<and> reason_text (Some ''tool unavailable'') = ''tool unavailable''"
proof -
  have p: "paused (orch (paused_sys ph rs c))" for ph rs c
    by (simp add: paused_sys_def)
  have r: "pause_reason (orch (paused_sys ph rs c)) = Some rs" for ph rs c
    by (simp add: paused_sys_def)
  have a: "dict_get (ctx (paused_sys ''development'' ''tool unavailable''
              [(''user_input'', PStr ''Try again'')])) ''user_input'' PNone = PStr ''Try again''"
    by (simp add: paused_sys_def dict_get_def)
  have b: "dict_get (ctx (paused_sys ''development'' ''tool unavailable''
              [(''user_input'', PStr ''TRY AGAIN'')])) ''user_input'' PNone \<noteq> PStr ''Try again''"
    by (simp add: paused_sys_def dict_get_def)
  have c: "dict_get (ctx (paused_sys ''development'' ''tool unavailable'' [])) ''user_input'' PNone
             \<noteq> PStr ''Try again''"
    by (simp add: paused_sys_def dict_get_def)
  show ?thesis
    using paused_orchestrator_accepts_only_exact_phrase[OF p, of "''development''" "''tool unavailable''" "[(''user_input'', PStr ''Try again'')]"]
      paused_orchestrator_accepts_only_exact_phrase[OF p, of "''development''" "''tool unavailable''" "[(''user_input'', PStr ''TRY AGAIN'')]"]
      paused_orchestrator_accepts_only_exact_phrase[OF p, of "''development''" "''tool unavailable''" "[]"]
      a b c
    by (simp add: r reason_text_def)
qed

lemma execute_failure_keeps_orchestrator:
  assumes "\<not> success (fst (execute s))"
  shows "orch (snd (execute s)) = orch s"
proof -
  obtain r s' where d: "dispatch s = (r, s')" by (cases "dispatch s")
  show ?thesis
  proof (cases "paused (orch s)")
    case True
    with d assms show ?thesis
      by (auto simp: execute_def dispatch_def handle_pause_resume_def resumed_response_def
            create_response_def split: if_splits)
  next
    case False
    from dispatch_unpaused[OF d False] assms show ?thesis
      by (auto simp: execute_dispatch[OF d] phase_step_def)
  qed
qed

lemma execute_keeps_unpaused:
  assumes "\<not> paused (orch s)"
  shows "paused (orch (snd (execute s))) = False
       \<and> pause_reason (orch (snd (execute s))) = pause_reason (orch s)"
proof -
  obtain r s' where d: "dispatch s = (r, s')" by (cases "dispatch s")
  from dispatch_unpaused[OF d assms] assms show ?thesis
    by (auto simp: execute_snd[OF d] phase_step_def)
qed

section \<open>A failing step does not pause the orchestrator\<close>

text \<open>
  Claim C3 says that a step failure caused by an unavailable service sets the paused
  flag. \<open>execute\<close> does not classify failures. At the input below the first development
  step fails with the message \<open>BaseAgent.call_llm\<close> produces for an unavailable model:
  the call answers with \<open>success\<close> false and the orchestrator is not paused.
\<close>

theorem recoverable_failure_counterexample:
  "success (fst (execute (sample_sys ''development''
        [(''arch_001'', failing_agent unavailable_message)] []))) = False
   \<and> message (fst (execute (sample_sys ''development''
        [(''arch_001'', failing_agent unavailable_message)] []))) =
       ''Development step failed: Architect Agent - '' @ unavailable_message
   \<and> paused (orch (snd (execute (sample_sys ''development''
        [(''arch_001'', failing_agent unavailable_message)] [])))) = False
   \<and> pause_reason (orch (snd (execute (sample_sys ''development''
        [(''arch_001'', failing_agent unavailable_message)] [])))) = None"
  by (simp add: execute_def dispatch_def execute_development_phase_def dev_steps_def
        sample_sys_def call_agent_def failing_agent_def step_failed_response_def
        create_response_def)

text \<open>
  Claim C3, amended. A call of \<open>execute\<close> that answers with \<open>success\<close> false leaves every
  field of the orchestrator as it was, so the phase is kept; and a call on an
  orchestrator that is not paused never pauses it. The paused flag is set by
  \<open>handle_model_unavailable\<close>, which the caller invokes: it stores the reason
  \<open>Model <model> unavailable\<close>, answers with \<open>success\<close> false, keeps the phase and calls
  no agent.
\<close>

theorem step_failure_never_pauses:
  "(\<not> success (fst (execute s)) \<longrightarrow> orch (snd (execute s)) = orch s)
   \<and> (\<not> paused (orch s) \<longrightarrow>
         paused (orch (snd (execute s))) = False
         \<and> pause_reason (orch (snd (execute s))) = pause_reason (orch s))
   \<and> orch (snd (handle_model_unavailable model s)) =
         (orch s)\<lparr>paused := True, pause_reason := Some (''Model '' @ model @ '' unavailable'')\<rparr>
   \<and> success (fst (handle_model_unavailable model s)) = False
   \<and> invoked (snd (handle_model_unavailable model s)) = invoked s"
proof -
  have a: "\<not> success (fst (execute s)) \<longrightarrow> orch (snd (execute s)) = orch s"
    using execute_failure_keeps_orchestrator by blast
  have b: "\<not> paused (orch s) \<longrightarrow>
         paused (orch (snd (execute s))) = False
         \<and> pause_reason (orch (snd (execute s))) = pause_reason (orch s)"
    using execute_keeps_unpaused by blast
  have c: "orch (snd (handle_model_unavailable model s)) =
         (orch s)\<lparr>paused := True, pause_reason := Some (''Model '' @ model @ '' unavailable'')\<rparr>"
    by (simp add: handle_model_unavailable_def pause_workflow_def)
  have d: "success (fst (handle_model_unavailable model s)) = False"
    by (simp add: handle_model_unavailable_def create_response_def)
  have e: "invoked (snd (handle_model_unavailable model s)) = invoked s"
    by (simp add: handle_model_unavailable_def)
  from a b c d e show ?thesis by blast
qed

theorem step_failure_never_pauses_witness:
  "workflow_state (orch (snd (execute (sample_sys ''development''
        [(''arch_001'', raising_agent unavailable_message)] [])))) = ''development''
   \<and> paused (orch (snd (execute (sample_sys ''development''
        [(''arch_001'', raising_agent unavailable_message)] [])))) = False
   \<and> pause_reason (orch (snd (execute (sample_sys ''development''
        [(''arch_001'', raising_agent unavailable_message)] [])))) = None
   \<and> pause_reason (orch (snd (handle_model_unavailable ''gpt-4o-mini''
        (sample_sys ''development'' [] [])))) = Some ''Model gpt-4o-mini unavailable''
   \<and> workflow_state (orch (snd (handle_model_unavailable ''gpt-4o-mini''
        (sample_sys ''development'' [] [])))) = ''development''"
proof -
  define s0 where "s0 = sample_sys ''development''
        [(''arch_001'', raising_agent unavailable_message)] []"
  have f: "\<not> success (fst (execute s0))"
    by (simp add: s0_def execute_def dispatch_def execute_development_phase_def dev_steps_def
          sample_sys_def call_agent_def raising_agent_def create_response_def)
  have u: "\<not> paused (orch s0)" by (simp add: s0_def sample_sys_def)
  have w: "workflow_state (orch s0) = ''development''" "pause_reason (orch s0) = None"
    by (simp_all add: s0_def sample_sys_def)
  have v: "workflow_state (orch (sample_sys ''development'' [] [])) = ''development''"
    by (simp add: sample_sys_def)
  show ?thesis
    unfolding s0_def[symmetric]
    using step_failure_never_pauses[of s0 "''gpt-4o-mini''"]
      step_failure_never_pauses[of "sample_sys ''development'' [] []" "''gpt-4o-mini''"] f u w v
    by simp
qed

section \<open>The gate between definition and development\<close>

text \<open>
  Claim C4. In the definition phase of an orchestrator that is not paused, the
  workflow state after the call is \<open>development\<close> exactly when the coordinator is
  registered, returned a response with \<open>success\<close> set, and the response's data holds a
  truthy \<open>project_defined\<close>; in every other case it is still \<open>definition\<close>. In
  particular a response with \<open>success\<close> set and without the flag is handed back as it
  is and the state stays \<open>definition\<close>.
\<close>

theorem definition_gate:
  assumes "\<not> paused (orch s)" and "workflow_state (orch s) = ''definition''"
  shows "(workflow_state (orch (snd (execute s))) = ''development'' \<longleftrightarrow>
            (\<exists>coordinator result s1.
               agents (orch s) ''coord_001'' = Some coordinator
               \<and> call_agent s ''coord_001'' coordinator = (Inr result, s1)
               \<and> success result
               \<and> truthy (dict_get (data result) ''project_defined'' (PBool False))))
       \<and> (workflow_state (orch (snd (execute s))) \<noteq> ''development'' \<longrightarrow>
            workflow_state (orch (snd (execute s))) = ''definition'')
       \<and> (\<forall>coordinator result s1.
            agents (orch s) ''coord_001'' = Some coordinator
            \<and> call_agent s ''coord_001'' coordinator = (Inr result, s1)
            \<and> success result
            \<and> \<not> truthy (dict_get (data result) ''project_defined'' (PBool False))
            \<longrightarrow> execute s = (result, s1) \<and> workflow_state (orch s1) = ''definition'')"
proof (cases "agents (orch s) ''coord_001''")
  case None
  with assms show ?thesis
    by (simp add: execute_def dispatch_def execute_definition_phase_def)
next
  case (Some coordinator)
  obtain q s1 where c: "call_agent s ''coord_001'' coordinator = (q, s1)"
    by (cases "call_agent s ''coord_001'' coordinator")
  have o: "orch s1 = orch s" using c by (rule call_agent_orch)
  show ?thesis
  proof (cases q)
    case (Inl e)
    with assms Some c o show ?thesis
      by (simp add: execute_def dispatch_def execute_definition_phase_def)
  next
    case (Inr result)
    with assms Some c o show ?thesis
      by (simp add: execute_def dispatch_def execute_definition_phase_def
            set_workflow_state_def)
  qed
qed

theorem definition_gate_witness:
  "workflow_state (orch (snd (execute (sample_sys ''definition''
        [(''coord_001'', succeeding_agent)] [])))) = ''definition''
   \<and> success (fst (execute (sample_sys ''definition''
        [(''coord_001'', succeeding_agent)] []))) = True
   \<and> workflow_state (orch (snd (execute (sample_sys ''definition''
        [(''coord_001'', confirming_agent)] [])))) = ''development''"
proof -
  define s0 where "s0 = sample_sys ''definition'' [(''coord_001'', succeeding_agent)] []"
  define s1 where "s1 = sample_sys ''definition'' [(''coord_001'', confirming_agent)] []"
  have p0: "\<not> paused (orch s0)" "workflow_state (orch s0) = ''definition''"
    by (simp_all add: s0_def sample_sys_def)
  have p1: "\<not> paused (orch s1)" "workflow_state (orch s1) = ''definition''"
    by (simp_all add: s1_def sample_sys_def)
  have a0: "agents (orch s0) ''coord_001'' = Some succeeding_agent"
    by (simp add: s0_def sample_sys_def)
  have c0: "call_agent s0 ''coord_001'' succeeding_agent =
      (Inr (create_response ''agent'' True ''done'' []), s0\<lparr>ctx := [], world := (), invoked := [''coord_001'']\<rparr>)"
    by (simp add: call_agent_def succeeding_agent_def s0_def sample_sys_def)
  have t0: "success (create_response ''agent'' True ''done'' [])"
    "\<not> truthy (dict_get (data (create_response ''agent'' True ''done'' [])) ''project_defined'' (PBool False))"
    by (simp_all add: create_response_def dict_get_def)
  have a1: "agents (orch s1) ''coord_001'' = Some confirming_agent"
    by (simp add: s1_def sample_sys_def)
  have c1: "call_agent s1 ''coord_001'' confirming_agent =
      (Inr (create_response ''agent'' True ''scope confirmed'' [(''project_defined'', PBool True)]),
       s1\<lparr>ctx := [], world := (), invoked := [''coord_001'']\<rparr>)"
    by (simp add: call_agent_def confirming_agent_def s1_def sample_sys_def)
  have t1: "success (create_response ''agent'' True ''scope confirmed'' [(''project_defined'', PBool True)])"
    "truthy (dict_get (data (create_response ''agent'' True ''scope confirmed''
        [(''project_defined'', PBool True)])) ''project_defined'' (PBool False))"
    by (simp_all add: create_response_def dict_get_def)
  from definition_gate[OF p0] a0 c0 t0
  have x: "execute s0 = (create_response ''agent'' True ''done'' [],
             s0\<lparr>ctx := [], world := (), invoked := [''coord_001'']\<rparr>)"
    by blast
  from definition_gate[OF p1] a1 c1 t1
  have y: "workflow_state (orch (snd (execute s1))) = ''development''"
    by blast
  show ?thesis unfolding s0_def[symmetric] s1_def[symmetric]
    using x y p0 by (simp add: create_response_def)
qed

section \<open>The order of the phases\<close>

lemma run_events_snoc: "run_events (evs @ [e]) s = apply_event e (run_events evs s)"
  by (simp add: run_events_def)

lemma run_events_append: "run_events (evs @ later) s = run_events later (run_events evs s)"
  by (simp add: run_events_def)

lemma apply_event_rank:
  assumes "phase_rank (workflow_state (orch s)) = Some n"
  shows "phase_rank (workflow_state (orch (apply_event e s))) = Some n
       \<or> phase_rank (workflow_state (orch (apply_event e s))) = Some (Suc n)"
proof (cases e)
  case (Execute c)
  have w: "phase_rank (workflow_state (orch (s\<lparr>ctx := c\<rparr>))) = Some n" using assms by simp
  from execute_workflow_state[of "s\<lparr>ctx := c\<rparr>"] phase_rank_next[OF w] w
  show ?thesis unfolding Execute by auto
next
  case (Register aid ag)
  with assms show ?thesis by (simp add: register_agent_def)
next
  case (Pause reason)
  with assms show ?thesis by (simp add: pause_workflow_def)
next
  case Resume
  with assms show ?thesis by (simp add: resume_workflow_def)
next
  case (ModelUnavailable model)
  with assms show ?thesis by (simp add: handle_model_unavailable_def pause_workflow_def)
qed

lemma reachable_rank:
  "\<exists>n. phase_rank (workflow_state (orch (run_events evs (initial_sys w)))) = Some n"
proof (induction evs rule: rev_induct)
  case Nil
  show ?case by (simp add: run_events_def initial_sys_def new_orchestrator_def phase_rank_def)
next
  case (snoc e evs)
  then obtain n where "phase_rank (workflow_state (orch (run_events evs (initial_sys w)))) = Some n"
    by blast
  from apply_event_rank[OF this, of e] show ?case by (auto simp: run_events_snoc)
qed

lemma run_events_rank_mono:
  assumes "phase_rank (workflow_state (orch s)) = Some m"
  shows "\<exists>n. phase_rank (workflow_state (orch (run_events later s))) = Some n \<and> m \<le> n"
proof (induction later rule: rev_induct)
  case Nil
  with assms show ?case by (simp add: run_events_def)
next
  case (snoc e later)
  then obtain n where n: "phase_rank (workflow_state (orch (run_events later s))) = Some n" "m \<le> n"
    by blast
  from apply_event_rank[OF n(1), of e] n(2) show ?case by (auto simp: run_events_snoc)
qed

text \<open>
  The setup guard looks for the key \<open>env_agent\<close>. While no agent is registered under
  that key, the setup phase is rejected and the state stays \<open>initializing\<close>.
\<close>

lemma setup_guard:
  assumes "workflow_state (orch s) = ''initializing''" and "\<not> paused (orch s)"
    and "agents (orch s) ''env_agent'' = None"
  shows "execute s = (create_response orch_id False ''Environment agent not registered'' [], s)"
  using assms by (simp add: execute_def dispatch_def execute_environment_setup_def)

lemma completed_execute:
  assumes "workflow_state (orch s) = ''completed''" and "\<not> paused (orch s)"
  shows "execute s = (create_response orch_id False ''Unknown workflow state: completed'' [], s)"
  using assms by (simp add: execute_def dispatch_def)

lemma completed_apply_event:
  assumes "workflow_state (orch s) = ''completed''"
  shows "workflow_state (orch (apply_event e s)) = ''completed''
       \<and> invoked (apply_event e s) = invoked s"
proof (cases e)
  case (Execute c)
  let ?s = "s\<lparr>ctx := c\<rparr>"
  have w: "workflow_state (orch ?s) = ''completed''" using assms by simp
  show ?thesis
  proof (cases "paused (orch s)")
    case True
    obtain r s' where d: "dispatch ?s = (r, s')" by (cases "dispatch ?s")
    have "handle_pause_resume ?s = (r, s')" using d True by (simp add: dispatch_def)
    from pause_resume_effect[OF this] w show ?thesis
      unfolding Execute by (simp add: execute_snd[OF d])
  next
    case False
    then have "\<not> paused (orch ?s)" by simp
    from completed_execute[OF w this] assms show ?thesis unfolding Execute by simp
  qed
next
  case (Register aid ag)
  with assms show ?thesis by (simp add: register_agent_def)
next
  case (Pause reason)
  with assms show ?thesis by (simp add: pause_workflow_def)
next
  case Resume
  with assms show ?thesis by (simp add: resume_workflow_def)
next
  case (ModelUnavailable model)
  with assms show ?thesis by (simp add: handle_model_unavailable_def pause_workflow_def)
qed

text \<open>
  Claim C5. Give every workflow state its position in the order \<open>initializing\<close>
  (setup), \<open>definition\<close>, \<open>development\<close>, \<open>delivery\<close>, \<open>completed\<close>. From a new
  orchestrator, after any sequence of events (calls of \<open>execute\<close>, registrations,
  pauses, resumes, model-unavailable notices), the workflow state is one of the five;
  one more event leaves the position as it is or moves it to the next one, so no phase
  is skipped; and any further events never lead to a smaller position, so no phase is
  revisited. In the state \<open>completed\<close> every event keeps the state \<open>completed\<close> and
  calls no agent, and a call of \<open>execute\<close> on an orchestrator that is not paused is
  rejected with \<open>success\<close> false and changes nothing.
\<close>

theorem phases_advance_in_order:
  "(\<exists>m n. phase_rank (workflow_state (orch (run_events evs (initial_sys w)))) = Some m
      \<and> phase_rank (workflow_state (orch (run_events (evs @ [e]) (initial_sys w)))) = Some n
      \<and> (n = m \<or> n = Suc m))
   \<and> (\<exists>m n. phase_rank (workflow_state (orch (run_events evs (initial_sys w)))) = Some m
      \<and> phase_rank (workflow_state (orch (run_events (evs @ later) (initial_sys w)))) = Some n
      \<and> m \<le> n)
   \<and> (workflow_state (orch s) = ''completed'' \<longrightarrow>
        workflow_state (orch (apply_event e s)) = ''completed''
        \<and> invoked (apply_event e s) = invoked s
        \<and> (\<not> paused (orch s) \<longrightarrow>
             execute s = (create_response orch_id False ''Unknown workflow state: completed'' [], s)))"
proof -
  let ?s = "run_events evs (initial_sys w)"
  obtain m where m: "phase_rank (workflow_state (orch ?s)) = Some m"
    using reachable_rank[of evs w] by auto
  have a: "\<exists>m n. phase_rank (workflow_state (orch ?s)) = Some m
      \<and> phase_rank (workflow_state (orch (run_events (evs @ [e]) (initial_sys w)))) = Some n
      \<and> (n = m \<or> n = Suc m)"
    using apply_event_rank[OF m, of e] m by (auto simp: run_events_snoc)
  have b: "\<exists>m n. phase_rank (workflow_state (orch ?s)) = Some m
      \<and> phase_rank (workflow_state (orch (run_events (evs @ later) (initial_sys w)))) = Some n
      \<and> m \<le> n"
    using run_events_rank_mono[OF m, of later] m by (auto simp: run_events_append)
  have c: "workflow_state (orch s) = ''completed'' \<longrightarrow>
        workflow_state (orch (apply_event e s)) = ''completed''
        \<and> invoked (apply_event e s) = invoked s
        \<and> (\<not> paused (orch s) \<longrightarrow>
             execute s = (create_response orch_id False ''Unknown workflow state: completed'' [], s))"
    using completed_apply_event[of s e] completed_execute[of s] by blast
  from a b c show ?thesis by blast
qed

lemma happy_path_states:
  "map (\<lambda>k. workflow_state (orch (run_events (take k happy_path) (initial_sys ())))) [4, 5, 6, 7, 8]
     = [''initializing'', ''definition'', ''development'', ''delivery'', ''completed'']"
  by (simp add: happy_path_def run_events_def initial_sys_def new_orchestrator_def
        register_agent_def execute_def dispatch_def execute_environment_setup_def
        execute_definition_phase_def execute_development_phase_def execute_delivery_phase_def
        dev_steps_def call_agent_def succeeding_agent_def confirming_agent_def
        create_response_def set_workflow_state_def dict_get_def)

lemma happy_path_completed:
  "workflow_state (orch (run_events happy_path (initial_sys ()))) = ''completed''
   \<and> \<not> paused (orch (run_events happy_path (initial_sys ())))"
  by (simp add: happy_path_def run_events_def initial_sys_def new_orchestrator_def
        register_agent_def execute_def dispatch_def execute_environment_setup_def
        execute_definition_phase_def execute_development_phase_def execute_delivery_phase_def
        dev_steps_def call_agent_def succeeding_agent_def confirming_agent_def
        create_response_def set_workflow_state_def dict_get_def)

theorem phases_advance_in_order_witness:
  "workflow_state (orch (run_events happy_path (initial_sys ()))) = ''completed''
   \<and> workflow_state (orch (run_events (happy_path @ [Execute []]) (initial_sys ()))) = ''completed''
   \<and> invoked (run_events (happy_path @ [Execute []]) (initial_sys ()))
       = invoked (run_events happy_path (initial_sys ()))
   \<and> fst (execute (run_events happy_path (initial_sys ())))
       = create_response orch_id False ''Unknown workflow state: completed'' []"
  using phases_advance_in_order[of happy_path "()" "Execute []" "[]"
          "run_events happy_path (initial_sys ())"]
    happy_path_completed
  by (simp add: run_events_snoc)

section \<open>Facts about the validator\<close>

lemma issues_result_passed: "passed (issues_result found advice) = (issues (issues_result found advice) = [])"
  by (simp add: issues_result_def)

lemma absent_result_passed: "passed (absent_result advice) = (issues (absent_result advice) = [])"
  by (simp add: absent_result_def)

lemma validate_code_quality_passed:
  "validate_code_quality str_of vr = Inr r \<Longrightarrow> passed r = (issues r = [])"
  by (auto simp: validate_code_quality_def Let_def issues_result_passed absent_result_passed
      split: sum.splits if_splits)

lemma validate_documentation_passed:
  "validate_documentation vr = Inr r \<Longrightarrow> passed r = (issues r = [])"
  by (auto simp: validate_documentation_def Let_def issues_result_def absent_result_def
      split: sum.splits if_splits)

lemma validate_testing_passed:
  "validate_testing vr = Inr r \<Longrightarrow> passed r = (issues r = [])"
  by (auto simp: validate_testing_def Let_def issues_result_def absent_result_def
      split: sum.splits if_splits)

lemma validate_security_passed:
  "validate_security vr = Inr r \<Longrightarrow> passed r = (issues r = [])"
  by (auto simp: validate_security_def Let_def issues_result_passed absent_result_passed
      split: sum.splits if_splits)

lemma validate_ethics_passed:
  "validate_ethics vr = Inr r \<Longrightarrow> passed r = (issues r = [])"
  by (auto simp: validate_ethics_def Let_def issues_result_passed absent_result_passed
      split: sum.splits if_splits)

lemma validate_criterion_passed:
  "validate_criterion str_of c vr = Inr r \<Longrightarrow> passed r = (issues r = [])"
  by (auto simp: validate_criterion_def validate_functionality_def
        validate_code_quality_passed validate_documentation_passed validate_testing_passed
        validate_security_passed validate_ethics_passed
      split: if_splits)

text \<open>What recording one criterion does to each field of the aggregate.\<close>

lemma record_criterion_approved:
  "approved (record_criterion lower_of c r v) = (approved v \<and> \<not> blocking lower_of r)"
  by (simp add: record_criterion_def blocking_def Let_def)

lemma record_criterion_issues:
  "all_issues (record_criterion lower_of c r v) =
     all_issues v @ (if passed r then [] else filter (is_critical lower_of) (issues r))"
  by (simp add: record_criterion_def Let_def)

lemma record_criterion_recommendations:
  "all_recommendations (record_criterion lower_of c r v) =
     all_recommendations v @ (if \<not> passed r \<and> issues r \<noteq> [] then recommendations r else [])"
  by (simp add: record_criterion_def Let_def)

lemma record_criterion_criteria:
  "criteria (record_criterion lower_of c r v) = AList.update c r (criteria v)"
  by (simp add: record_criterion_def Let_def)

lemma update_fresh: "c \<notin> fst ` set al \<Longrightarrow> AList.update c r al = al @ [(c, r)]"
  by (induction al) auto

lemma validation_loop_result:
  "validation_loop str_of lower_of cs vr v0 = Inr v \<Longrightarrow>
   \<exists>rs. length rs = length cs
      \<and> (\<forall>(c, r) \<in> set (zip cs rs). validate_criterion str_of c vr = Inr r)
      \<and> approved v = (approved v0 \<and> (\<forall>r \<in> set rs. \<not> blocking lower_of r))
      \<and> all_issues v = all_issues v0
            @ concat (map (\<lambda>r. if passed r then [] else filter (is_critical lower_of) (issues r)) rs)
      \<and> all_recommendations v = all_recommendations v0
            @ concat (map (\<lambda>r. if \<not> passed r \<and> issues r \<noteq> [] then recommendations r else []) rs)
      \<and> (distinct cs \<and> set cs \<inter> fst ` set (criteria v0) = {} \<longrightarrow>
            criteria v = criteria v0 @ zip cs rs)"
proof (induction cs arbitrary: v0)
  case Nil
  then show ?case by simp
next
  case (Cons c cs)
  from Cons.prems obtain r where
    r: "validate_criterion str_of c vr = Inr r"
    and l: "validation_loop str_of lower_of cs vr (record_criterion lower_of c r v0) = Inr v"
    by (auto split: sum.splits)
  from Cons.IH[OF l] obtain rs where
    len: "length rs = length cs"
    and each: "\<forall>(c, r) \<in> set (zip cs rs). validate_criterion str_of c vr = Inr r"
    and app: "approved v = (approved (record_criterion lower_of c r v0) \<and> (\<forall>r \<in> set rs. \<not> blocking lower_of r))"
    and iss: "all_issues v = all_issues (record_criterion lower_of c r v0)
            @ concat (map (\<lambda>r. if passed r then [] else filter (is_critical lower_of) (issues r)) rs)"
    and recs: "all_recommendations v = all_recommendations (record_criterion lower_of c r v0)
            @ concat (map (\<lambda>r. if \<not> passed r \<and> issues r \<noteq> [] then recommendations r else []) rs)"
    and crit: "distinct cs \<and> set cs \<inter> fst ` set (criteria (record_criterion lower_of c r v0)) = {} \<longrightarrow>
            criteria v = criteria (record_criterion lower_of c r v0) @ zip cs rs"
    by blast
  have 1: "length (r # rs) = length (c # cs)" using len by simp
  have 2: "\<forall>(c', r') \<in> set (zip (c # cs) (r # rs)). validate_criterion str_of c' vr = Inr r'"
    using each r by simp
  have 3: "approved v = (approved v0 \<and> (\<forall>r' \<in> set (r # rs). \<not> blocking lower_of r'))"
    using app by (auto simp: record_criterion_approved)
  have 4: "all_issues v = all_issues v0
            @ concat (map (\<lambda>r. if passed r then [] else filter (is_critical lower_of) (issues r)) (r # rs))"
    using iss by (simp add: record_criterion_issues)
  have 5: "all_recommendations v = all_recommendations v0
            @ concat (map (\<lambda>r. if \<not> passed r \<and> issues r \<noteq> [] then recommendations r else []) (r # rs))"
    using recs by (simp add: record_criterion_recommendations)
  have 6: "criteria v = criteria v0 @ zip (c # cs) (r # rs)"
    if d: "distinct (c # cs)" and f: "set (c # cs) \<inter> fst ` set (criteria v0) = {}"
  proof -
    have cf: "c \<notin> fst ` set (criteria v0)" using f by auto
    have u: "criteria (record_criterion lower_of c r v0) = criteria v0 @ [(c, r)]"
      by (simp add: record_criterion_criteria update_fresh[OF cf])
    have "set cs \<inter> fst ` set (criteria (record_criterion lower_of c r v0)) = {}"
      using d f unfolding u by auto
    with crit d have "criteria v = criteria (record_criterion lower_of c r v0) @ zip cs rs" by simp
    then show ?thesis by (simp add: u)
  qed
  from 1 2 3 4 5 6 show ?case by blast
qed

lemma blocking_iff:
  "passed r = (issues r = []) \<Longrightarrow> blocking lower_of r \<longleftrightarrow> (\<exists>issue \<in> set (issues r). is_critical lower_of issue)"
  by (auto simp: blocking_def filter_empty_conv)

lemma is_critical_iff:
  "is_critical lower_of issue \<longleftrightarrow> (\<exists>keyword \<in> set critical_keywords. sublist keyword (lower_of issue))"
  by (simp add: is_critical_def list_ex_iff)

lemma syntax_error_critical: "sublist ''syntax error'' (lower_of issue) \<Longrightarrow> is_critical lower_of issue"
  by (auto simp: is_critical_iff critical_keywords_def)

lemma style_warnings_not_critical:
  "lower_of issue = ''3 minor style warnings'' \<Longrightarrow> is_critical lower_of issue = False"
  by (simp add: is_critical_def critical_keywords_def sublist_code)

lemma perform_final_validation_result:
  assumes "perform_final_validation str_of lower_of vr = Inr v"
  shows "\<exists>rs. length rs = length validation_criteria
      \<and> criteria v = zip validation_criteria rs
      \<and> (\<forall>(c, r) \<in> set (zip validation_criteria rs). validate_criterion str_of c vr = Inr r)
      \<and> approved v = (\<forall>r \<in> set rs. \<not> blocking lower_of r)
      \<and> all_issues v = concat (map (\<lambda>r. if passed r then [] else filter (is_critical lower_of) (issues r)) rs)
      \<and> all_recommendations v =
           concat (map (\<lambda>r. if \<not> passed r \<and> issues r \<noteq> [] then recommendations r else []) rs)"
proof -
  have d: "distinct validation_criteria" by (simp add: validation_criteria_def)
  from validation_loop_result[OF assms[unfolded perform_final_validation_def]] d
  show ?thesis by simp blast
qed

text \<open>The final validation returns exactly on well-formed validation results.\<close>

lemma as_dict_dict: "as_dict attr (PDict d) = Inr d"
  by (simp add: as_dict_def)

lemma as_dict_not_dict: "\<not> is_dict v \<Longrightarrow> \<exists>e. as_dict attr v = Inl e"
  by (cases v) (simp_all add: as_dict_def is_dict_def)

lemma standards_issues_returns:
  "(\<exists>found. standards_issues str_of entries = Inr found) \<longleftrightarrow> list_all (\<lambda>(k, r). is_dict r) entries"
proof (induction entries)
  case Nil
  show ?case by simp
next
  case (Cons e entries)
  obtain k r where e: "e = (k, r)" by (cases e)
  show ?case
  proof (cases "is_dict r")
    case True
    then obtain d where "r = PDict d" by (cases r) (simp_all add: is_dict_def)
    with Cons e True show ?thesis by (auto simp: as_dict_dict split: sum.splits)
  next
    case False
    with as_dict_not_dict[OF False, of "''get''"] e show ?thesis by auto
  qed
qed

lemma unsafe_issues_returns:
  "(\<exists>found. unsafe_issues label entries = Inr found) \<longleftrightarrow> list_all (\<lambda>(k, r). is_dict r) entries"
proof (induction entries)
  case Nil
  show ?case by simp
next
  case (Cons e entries)
  obtain k r where e: "e = (k, r)" by (cases e)
  show ?case
  proof (cases "is_dict r")
    case True
    then obtain d where "r = PDict d" by (cases r) (simp_all add: is_dict_def)
    with Cons e True show ?thesis by (auto simp: as_dict_dict split: sum.splits)
  next
    case False
    with as_dict_not_dict[OF False, of "''get''"] e show ?thesis by auto
  qed
qed

lemma validate_code_quality_returns:
  "(\<exists>r. validate_code_quality str_of (PDict d) = Inr r) \<longleftrightarrow>
     \<not> truthy (dict_get d ''standards_results'' (PDict []))
     \<or> dict_of_dicts (dict_get d ''standards_results'' (PDict []))"
proof (cases "truthy (dict_get d ''standards_results'' (PDict []))")
  case False
  then show ?thesis by (simp add: validate_code_quality_def as_dict_dict)
next
  case True
  let ?s = "dict_get d ''standards_results'' (PDict [])"
  show ?thesis
  proof (cases ?s)
    case (PDict entries)
    with True standards_issues_returns[of str_of entries] show ?thesis
      by (auto simp: validate_code_quality_def as_dict_dict dict_of_dicts_def Let_def
          split: sum.splits)
  qed (use True in \<open>simp_all add: validate_code_quality_def as_dict_def dict_of_dicts_def\<close>)
qed

lemma validate_security_returns:
  "(\<exists>r. validate_security (PDict d) = Inr r) \<longleftrightarrow>
     \<not> truthy (dict_get d ''security_results'' (PDict []))
     \<or> dict_of_dicts (dict_get d ''security_results'' (PDict []))"
proof (cases "truthy (dict_get d ''security_results'' (PDict []))")
  case False
  then show ?thesis by (simp add: validate_security_def as_dict_dict)
next
  case True
  let ?s = "dict_get d ''security_results'' (PDict [])"
  show ?thesis
  proof (cases ?s)
    case (PDict entries)
    with True unsafe_issues_returns[of "''Security issues in ''" entries] show ?thesis
      by (auto simp: validate_security_def as_dict_dict dict_of_dicts_def Let_def
          split: sum.splits)
  qed (use True in \<open>simp_all add: validate_security_def as_dict_def dict_of_dicts_def\<close>)
qed

lemma validate_ethics_returns:
  "(\<exists>r. validate_ethics (PDict d) = Inr r) \<longleftrightarrow>
     \<not> truthy (dict_get d ''ethics_results'' (PDict []))
     \<or> dict_of_dicts (dict_get d ''ethics_results'' (PDict []))"
proof (cases "truthy (dict_get d ''ethics_results'' (PDict []))")
  case False
  then show ?thesis by (simp add: validate_ethics_def as_dict_dict)
next
  case True
  let ?s = "dict_get d ''ethics_results'' (PDict [])"
  show ?thesis
  proof (cases ?s)
    case (PDict entries)
    with True unsafe_issues_returns[of "''Ethical issues in ''" entries] show ?thesis
      by (auto simp: validate_ethics_def as_dict_dict dict_of_dicts_def Let_def
          split: sum.splits)
  qed (use True in \<open>simp_all add: validate_ethics_def as_dict_def dict_of_dicts_def\<close>)
qed

lemma validate_documentation_returns:
  "(\<exists>r. validate_documentation (PDict d) = Inr r) \<longleftrightarrow>
     \<not> truthy (dict_get d ''documentation_results'' (PDict []))
     \<or> is_dict (dict_get d ''documentation_results'' (PDict []))"
  by (cases "dict_get d ''documentation_results'' (PDict [])")
     (simp_all add: validate_documentation_def as_dict_def is_dict_def Let_def)

lemma validate_testing_returns:
  "(\<exists>r. validate_testing (PDict d) = Inr r) \<longleftrightarrow>
     \<not> truthy (dict_get d ''test_results'' (PDict []))
     \<or> (case dict_get d ''test_results'' (PDict []) of
           PDict t \<Rightarrow> is_dict (dict_get t ''unit_tests'' (PDict []))
         | _ \<Rightarrow> False)"
proof (cases "dict_get d ''test_results'' (PDict [])")
  case (PDict t)
  show ?thesis
    by (cases "dict_get t ''unit_tests'' (PDict [])")
       (simp_all add: PDict validate_testing_def as_dict_def is_dict_def Let_def)
qed (simp_all add: validate_testing_def as_dict_def is_dict_def Let_def)

lemma validation_loop_returns:
  "(\<exists>v. validation_loop str_of lower_of cs vr v0 = Inr v) \<longleftrightarrow>
     (\<forall>c \<in> set cs. \<exists>r. validate_criterion str_of c vr = Inr r)"
proof (induction cs arbitrary: v0)
  case Nil
  show ?case by simp
next
  case (Cons c cs)
  show ?case
  proof (cases "validate_criterion str_of c vr")
    case (Inl e)
    then show ?thesis by simp
  next
    case (Inr r)
    with Cons[of "record_criterion lower_of c r v0"] show ?thesis by simp
  qed
qed

lemma validation_returns_iff:
  "(\<exists>v. perform_final_validation str_of lower_of vr = Inr v) \<longleftrightarrow> well_formed_results vr"
proof (cases vr)
  case (PDict d)
  show ?thesis
    unfolding perform_final_validation_def validation_loop_returns PDict
    using validate_code_quality_returns[of str_of d] validate_documentation_returns[of d]
      validate_testing_returns[of d] validate_security_returns[of d] validate_ethics_returns[of d]
    by (simp add: validation_criteria_def validate_criterion_def validate_functionality_def
          well_formed_results_def)
qed (simp_all add: perform_final_validation_def validation_criteria_def validate_criterion_def
       validate_code_quality_def as_dict_def well_formed_results_def)

section \<open>Only critical issues block the approval\<close>

text \<open>
  Claim C6. Whenever the final validation returns (it does on all well-formed
  validation results and raises on the others), it has recorded the result of each
  of the six criteria, and \<open>approved\<close> is false exactly when some criterion's list of
  issues holds a critical string: one whose lower-cased text, as \<open>str.lower\<close> gives it,
  contains one of the six keywords. The aggregate's issues are the critical issues of
  the criteria, and the recommendations of every criterion with issues, critical or
  not, are collected as recommendations. An issue whose lower-cased text is
  \<open>3 minor style warnings\<close> is not critical; every issue whose lower-cased text
  contains \<open>syntax error\<close> is. All of this holds for every function in the place of
  \<open>str.lower\<close>, so for Python's own, whatever it does to characters beyond ASCII.
\<close>

theorem approval_blocked_only_by_critical_issues:
  assumes "perform_final_validation str_of lower_of vr = Inr v"
  shows "map fst (criteria v) = validation_criteria
       \<and> (\<forall>(c, r) \<in> set (criteria v). validate_criterion str_of c vr = Inr r)
       \<and> (approved v = False \<longleftrightarrow>
            (\<exists>(c, r) \<in> set (criteria v). \<exists>issue \<in> set (issues r). is_critical lower_of issue))
       \<and> all_issues v = concat (map (\<lambda>(c, r). filter (is_critical lower_of) (issues r)) (criteria v))
       \<and> all_recommendations v =
            concat (map (\<lambda>(c, r). if issues r \<noteq> [] then recommendations r else []) (criteria v))
       \<and> (\<forall>issue. is_critical lower_of issue \<longleftrightarrow>
              (\<exists>keyword \<in> set critical_keywords. sublist keyword (lower_of issue)))
       \<and> (\<forall>issue. lower_of issue = ''3 minor style warnings'' \<longrightarrow>
              is_critical lower_of issue = False)
       \<and> (\<forall>issue. sublist ''syntax error'' (lower_of issue) \<longrightarrow> is_critical lower_of issue)"
proof -
  from perform_final_validation_result[OF assms] obtain rs where
    len: "length rs = length validation_criteria"
    and crit: "criteria v = zip validation_criteria rs"
    and each: "\<forall>(c, r) \<in> set (zip validation_criteria rs). validate_criterion str_of c vr = Inr r"
    and app: "approved v = (\<forall>r \<in> set rs. \<not> blocking lower_of r)"
    and iss: "all_issues v = concat (map (\<lambda>r. if passed r then [] else filter (is_critical lower_of) (issues r)) rs)"
    and recs: "all_recommendations v =
           concat (map (\<lambda>r. if \<not> passed r \<and> issues r \<noteq> [] then recommendations r else []) rs)"
    by blast
  have snd_rs: "map snd (criteria v) = rs" using len crit by simp
  have p: "passed r = (issues r = [])" if "r \<in> set rs" for r
  proof -
    from that snd_rs obtain c where "(c, r) \<in> set (criteria v)" by force
    with each crit have "validate_criterion str_of c vr = Inr r" by auto
    then show ?thesis by (rule validate_criterion_passed)
  qed
  have a: "map fst (criteria v) = validation_criteria" using len crit by simp
  have b: "\<forall>(c, r) \<in> set (criteria v). validate_criterion str_of c vr = Inr r"
    using each crit by simp
  have "approved v = False \<longleftrightarrow> (\<exists>r \<in> set rs. blocking lower_of r)" using app by auto
  also have "\<dots> \<longleftrightarrow> (\<exists>r \<in> set rs. \<exists>issue \<in> set (issues r). is_critical lower_of issue)"
    using p blocking_iff by blast
  also have "\<dots> \<longleftrightarrow> (\<exists>(c, r) \<in> set (criteria v). \<exists>issue \<in> set (issues r). is_critical lower_of issue)"
    unfolding snd_rs[symmetric] by force
  finally have c: "approved v = False \<longleftrightarrow>
      (\<exists>(c, r) \<in> set (criteria v). \<exists>issue \<in> set (issues r). is_critical lower_of issue)" .
  have m1: "map (\<lambda>r. if passed r then [] else filter (is_critical lower_of) (issues r)) rs
          = map (\<lambda>r. filter (is_critical lower_of) (issues r)) rs"
    using p by (intro map_cong) auto
  have "all_issues v = concat (map (\<lambda>r. filter (is_critical lower_of) (issues r)) (map snd (criteria v)))"
    by (simp only: iss m1 snd_rs)
  then have d: "all_issues v = concat (map (\<lambda>(c, r). filter (is_critical lower_of) (issues r)) (criteria v))"
    by (simp add: comp_def case_prod_unfold)
  have m2: "map (\<lambda>r. if \<not> passed r \<and> issues r \<noteq> [] then recommendations r else []) rs
          = map (\<lambda>r. if issues r \<noteq> [] then recommendations r else []) rs"
    using p by (intro map_cong) auto
  have "all_recommendations v =
      concat (map (\<lambda>r. if issues r \<noteq> [] then recommendations r else []) (map snd (criteria v)))"
    by (simp only: recs m2 snd_rs)
  then have e: "all_recommendations v =
      concat (map (\<lambda>(c, r). if issues r \<noteq> [] then recommendations r else []) (criteria v))"
    by (simp add: comp_def case_prod_unfold)
  have f: "\<forall>issue. is_critical lower_of issue \<longleftrightarrow>
              (\<exists>keyword \<in> set critical_keywords. sublist keyword (lower_of issue))"
    by (simp add: is_critical_iff)
  have g: "\<forall>issue. lower_of issue = ''3 minor style warnings'' \<longrightarrow>
              is_critical lower_of issue = False"
    using style_warnings_not_critical by blast
  have h: "\<forall>issue. sublist ''syntax error'' (lower_of issue) \<longrightarrow> is_critical lower_of issue"
    using syntax_error_critical by blast
  from a b c d e f g h show ?thesis by blast
qed

theorem approval_blocked_only_by_critical_issues_witness:
  "(\<exists>v. perform_final_validation sample_str sample_lower syntax_error_results = Inr v
        \<and> approved v = False
        \<and> all_issues v = [''flake8: Syntax Error in module X''])
   \<and> (\<exists>v. perform_final_validation sample_str sample_lower style_warning_results = Inr v
        \<and> approved v = True
        \<and> all_issues v = []
        \<and> all_recommendations v = [''Run code quality tools and fix issues''])
   \<and> (\<exists>v. perform_final_validation sample_str sample_lower kelvin_sign_results = Inr v
        \<and> approved v = False)
   \<and> sample_lower ''3 Minor Style Warnings'' = ''3 minor style warnings''
   \<and> is_critical sample_lower ''3 Minor Style Warnings'' = False
   \<and> sublist ''syntax error'' (sample_lower ''flake8: Syntax Error in module X'')
   \<and> is_critical sample_lower ''flake8: Syntax Error in module X''"
proof -
  have a: "perform_final_validation sample_str sample_lower syntax_error_results =
      Inr \<lparr>approved = False,
           criteria = (''code_quality'',
                       issues_result [''flake8: Syntax Error in module X'']
                         ''Run code quality tools and fix issues'') # absent_criteria,
           all_issues = [''flake8: Syntax Error in module X''],
           all_recommendations = [''Run code quality tools and fix issues'']\<rparr>"
    by code_simp
  have b: "perform_final_validation sample_str sample_lower style_warning_results =
      Inr \<lparr>approved = True,
           criteria = (''code_quality'',
                       issues_result [''flake8: 3 minor style warnings'']
                         ''Run code quality tools and fix issues'') # absent_criteria,
           all_issues = [],
           all_recommendations = [''Run code quality tools and fix issues'']\<rparr>"
    by code_simp
  have c: "perform_final_validation sample_str sample_lower kelvin_sign_results =
      Inr \<lparr>approved = False,
           criteria = (''code_quality'',
                       issues_result [''flake8: BRO'' @ [CHR 0xE2, CHR 0x84, CHR 0xAA] @ ''EN build'']
                         ''Run code quality tools and fix issues'') # absent_criteria,
           all_issues = [''flake8: BRO'' @ [CHR 0xE2, CHR 0x84, CHR 0xAA] @ ''EN build''],
           all_recommendations = [''Run code quality tools and fix issues'']\<rparr>"
    by code_simp
  have d: "sample_lower ''3 Minor Style Warnings'' = ''3 minor style warnings''"
    by code_simp
  have e: "sublist ''syntax error'' (sample_lower ''flake8: Syntax Error in module X'')"
    by code_simp
  from approval_blocked_only_by_critical_issues[OF a]
  have f: "\<forall>issue. sublist ''syntax error'' (sample_lower issue) \<longrightarrow>
             is_critical sample_lower issue"
    by blast
  from approval_blocked_only_by_critical_issues[OF b]
  have g: "\<forall>issue. sample_lower issue = ''3 minor style warnings'' \<longrightarrow>
             is_critical sample_lower issue = False"
    by blast
  from approval_blocked_only_by_critical_issues[OF c]
  have h: "\<forall>issue. is_critical sample_lower issue \<longleftrightarrow>
             (\<exists>keyword \<in> set critical_keywords. sublist keyword (sample_lower issue))"
    by blast
  have 1: "\<exists>v. perform_final_validation sample_str sample_lower syntax_error_results = Inr v
        \<and> approved v = False
        \<and> all_issues v = [''flake8: Syntax Error in module X'']"
    by (simp add: a)
  have 2: "\<exists>v. perform_final_validation sample_str sample_lower style_warning_results = Inr v
        \<and> approved v = True
        \<and> all_issues v = []
        \<and> all_recommendations v = [''Run code quality tools and fix issues'']"
    by (simp add: b)
  have 3: "\<exists>v. perform_final_validation sample_str sample_lower kelvin_sign_results = Inr v
        \<and> approved v = False"
    using h by (simp add: c)
  have 4: "is_critical sample_lower ''3 Minor Style Warnings'' = False"
    using g d by blast
  have 5: "is_critical sample_lower ''flake8: Syntax Error in module X''"
    using f e by blast
  from 1 2 3 d 4 e 5 show ?thesis by blast
qed

section \<open>Validation with nothing recorded\<close>

text \<open>
  Claim C7 says that with empty validation results every one of the six criteria
  passes with an advisory recommendation. The criterion \<open>functionality\<close> passes with an
  empty list of recommendations.
\<close>

theorem functionality_advisory_counterexample:
  "validate_criterion sample_str ''functionality'' (PDict []) =
     Inr \<lparr>passed = True, issues = [], recommendations = []\<rparr>"
  by (simp add: validate_criterion_def validate_functionality_def)

text \<open>
  Claim C7, amended. When the validation results hold nothing (or only falsy values)
  under the five result keys, the six criteria all pass; \<open>code_quality\<close>,
  \<open>documentation\<close>, \<open>testing\<close>, \<open>security\<close> and \<open>ethics\<close> carry one advisory
  recommendation each and \<open>functionality\<close> carries none; the aggregate is approved with
  no issues and no recommendations of its own, and the validator answers with
  \<open>success\<close> true.
\<close>

theorem empty_results_are_approved:
  assumes "\<forall>k \<in> set result_keys. \<not> truthy (dict_get d k (PDict []))"
  shows "perform_final_validation str_of lower_of (PDict d) =
           Inr \<lparr>approved = True,
                criteria = (''code_quality'', absent_result ''Consider running code quality tools'')
                           # absent_criteria,
                all_issues = [], all_recommendations = []\<rparr>
       \<and> (dict_get c ''validation_results'' (PDict []) = PDict d \<longrightarrow>
            success (validator_execute str_of lower_of c) = True
            \<and> message (validator_execute str_of lower_of c) = ''SUCCESS: Project approved for delivery'')"
proof -
  have k: "\<not> truthy (dict_get d ''standards_results'' (PDict []))"
    "\<not> truthy (dict_get d ''documentation_results'' (PDict []))"
    "\<not> truthy (dict_get d ''test_results'' (PDict []))"
    "\<not> truthy (dict_get d ''security_results'' (PDict []))"
    "\<not> truthy (dict_get d ''ethics_results'' (PDict []))"
    using assms by (simp_all add: result_keys_def)
  have c: "validate_code_quality str_of (PDict d) = Inr (absent_result ''Consider running code quality tools'')"
    "validate_documentation (PDict d) = Inr (absent_result ''Consider adding more documentation'')"
    "validate_testing (PDict d) = Inr (absent_result ''Consider adding more comprehensive tests'')"
    "validate_security (PDict d) = Inr (absent_result ''Consider adding security scanning'')"
    "validate_ethics (PDict d) = Inr (absent_result ''Consider adding ethics review'')"
    using k
    by (simp_all add: validate_code_quality_def validate_documentation_def validate_testing_def
          validate_security_def validate_ethics_def as_dict_def Let_def)
  have p: "perform_final_validation str_of lower_of (PDict d) =
           Inr \<lparr>approved = True,
                criteria = (''code_quality'', absent_result ''Consider running code quality tools'')
                           # absent_criteria,
                all_issues = [], all_recommendations = []\<rparr>"
    using c
    by (simp add: perform_final_validation_def validation_criteria_def validate_criterion_def
          validate_functionality_def record_criterion_def absent_result_def absent_criteria_def
          Let_def)
  have x: "success (validator_execute str_of lower_of c) = True
            \<and> message (validator_execute str_of lower_of c) = ''SUCCESS: Project approved for delivery''"
    if "dict_get c ''validation_results'' (PDict []) = PDict d"
    using that by (simp add: validator_execute_def p create_response_def)
  from p x show ?thesis by blast
qed

theorem empty_results_are_approved_witness:
  "perform_final_validation sample_str sample_lower (PDict []) =
           Inr \<lparr>approved = True,
                criteria = (''code_quality'', absent_result ''Consider running code quality tools'')
                           # absent_criteria,
                all_issues = [], all_recommendations = []\<rparr>
   \<and> success (validator_execute sample_str sample_lower []) = True
   \<and> map_of absent_criteria ''functionality'' =
       Some \<lparr>passed = True, issues = [], recommendations = []\<rparr>"
proof -
  have h: "\<forall>k \<in> set result_keys. \<not> truthy (dict_get [] k (PDict []))"
    by (simp add: dict_get_def)
  have g: "dict_get [] ''validation_results'' (PDict []) = PDict []"
    by (simp add: dict_get_def)
  show ?thesis
    using empty_results_are_approved[OF h, where str_of = sample_str and lower_of = sample_lower
            and c = "[]"] g
    by (simp add: absent_criteria_def absent_result_def)
qed

section \<open>The deployment choice\<close>

lemma deployment_outcome_message:
  "message (fst (deployment_outcome aid rw)) \<noteq> ''Invalid deployment option''"
  by (auto simp: deployment_outcome_def create_response_def split: prod.splits deploy_result.splits)

text \<open>
  Claim C10. When the context has no key \<open>deployment_choice\<close>, the deployment agent
  runs the source-only deployment and answers with whatever that deployment gives,
  success included. The answer with \<open>success\<close> false and the message
  \<open>Invalid deployment option\<close> is given exactly when the key is present with a value
  other than the strings \<open>github\<close>, \<open>executable\<close> and \<open>source_only\<close>; then no
  deployment method is run.
\<close>

theorem deployment_choice_default_and_invalid:
  "(map_of c ''deployment_choice'' = None \<longrightarrow>
      deployment_execute aid dep c w = deployment_outcome aid (deploy_source_only dep c w))
   \<and> (\<forall>result w'. map_of c ''deployment_choice'' = None
         \<and> deploy_source_only dep c w = (Deployed result, w') \<longrightarrow>
         success (fst (deployment_execute aid dep c w)) = True
         \<and> message (fst (deployment_execute aid dep c w)) = ''SUCCESS: Deployment completed'')
   \<and> ((success (fst (deployment_execute aid dep c w)) = False
        \<and> message (fst (deployment_execute aid dep c w)) = ''Invalid deployment option'')
       \<longleftrightarrow> (\<exists>v. map_of c ''deployment_choice'' = Some v
                \<and> v \<noteq> PStr ''github'' \<and> v \<noteq> PStr ''executable'' \<and> v \<noteq> PStr ''source_only''))
   \<and> ((\<exists>v. map_of c ''deployment_choice'' = Some v
          \<and> v \<noteq> PStr ''github'' \<and> v \<noteq> PStr ''executable'' \<and> v \<noteq> PStr ''source_only'')
       \<longrightarrow> deployment_execute aid dep c w =
             (create_response aid False ''Invalid deployment option'' [], w))"
proof (cases "map_of c ''deployment_choice''")
  case None
  then have e: "deployment_execute aid dep c w = deployment_outcome aid (deploy_source_only dep c w)"
    by (simp add: deployment_execute_def dict_get_def py_eq_str_def)
  show ?thesis using None deployment_outcome_message[of aid "deploy_source_only dep c w"]
    by (auto simp: e deployment_outcome_def create_response_def)
next
  case (Some v)
  consider (g) "v = PStr ''github''" | (x) "v = PStr ''executable''" | (s) "v = PStr ''source_only''"
    | (o) "v \<noteq> PStr ''github''" "v \<noteq> PStr ''executable''" "v \<noteq> PStr ''source_only''"
    by blast
  then show ?thesis
  proof cases
    case g
    with Some have "deployment_execute aid dep c w = deployment_outcome aid (deploy_to_github dep c w)"
      by (simp add: deployment_execute_def dict_get_def py_eq_str_def)
    with Some g deployment_outcome_message[of aid "deploy_to_github dep c w"] show ?thesis by simp
  next
    case x
    with Some have "deployment_execute aid dep c w = deployment_outcome aid (deploy_as_executable dep c w)"
      by (simp add: deployment_execute_def dict_get_def py_eq_str_def)
    with Some x deployment_outcome_message[of aid "deploy_as_executable dep c w"] show ?thesis by simp
  next
    case s
    with Some have "deployment_execute aid dep c w = deployment_outcome aid (deploy_source_only dep c w)"
      by (simp add: deployment_execute_def dict_get_def py_eq_str_def)
    with Some s deployment_outcome_message[of aid "deploy_source_only dep c w"] show ?thesis by simp
  next
    case o
    with Some show ?thesis
      by (simp add: deployment_execute_def dict_get_def py_eq_str_def create_response_def)
  qed
qed

theorem deployment_choice_default_and_invalid_witness:
  "deployment_execute ''deploy_001'' sample_deployers [] () =
     (create_response ''deploy_001'' True ''SUCCESS: Deployment completed''
        [(''success'', PBool True), (''deployment_type'', PStr ''source_only'')], ())
   \<and> deployment_execute ''deploy_001'' sample_deployers [(''deployment_choice'', PStr ''zip'')] () =
     (create_response ''deploy_001'' False ''Invalid deployment option'' [], ())
   \<and> deployment_execute ''deploy_001'' sample_deployers [(''deployment_choice'', PNone)] () =
     (create_response ''deploy_001'' False ''Invalid deployment option'' [], ())"
  using deployment_choice_default_and_invalid[of "[]" "''deploy_001''" sample_deployers "()"]
    deployment_choice_default_and_invalid[of "[(''deployment_choice'', PStr ''zip'')]"
      "''deploy_001''" sample_deployers "()"]
    deployment_choice_default_and_invalid[of "[(''deployment_choice'', PNone)]"
      "''deploy_001''" sample_deployers "()"]
  by (simp add: sample_deployers_def deployment_outcome_def)

end
